theory Spec2Isabelle
  imports Complex_Main "HOL-Library.Multiset"
begin

section \<open>Validation metrics for extraction quality\<close>

text \<open>
  A shallow embedding of \<^verbatim>\<open>08_calculate_validation_metrics.py\<close>: the comparators
  (\<^verbatim>\<open>compare_boolean\<close>, \<^verbatim>\<open>compare_numeric\<close>, \<^verbatim>\<open>compare_string\<close>,
  \<^verbatim>\<open>compare_list\<close>, \<^verbatim>\<open>compare_field\<close>, \<^verbatim>\<open>compare_nested\<close>),
  \<^verbatim>\<open>calculate_metrics\<close>, \<^verbatim>\<open>evaluate_paper\<close>, \<^verbatim>\<open>aggregate_metrics\<close> and the
  two issue lists of \<^verbatim>\<open>generate_report\<close>.

  Conventions of the model.
  \<^item> A value loaded from JSON is a \<open>pyval\<close>. A dictionary is an association list read
    with \<open>map_of\<close>; its keys are meant to be distinct, as the keys of a Python dict are.
  \<^item> A Python \<^verbatim>\<open>float\<close> is an IEEE double, a value of \<open>fl\<close>: a finite double is kept as
    the rational number it equals, beside negative zero, the two infinities and NaN.
    Conversion from an integer or a text and subtraction round to the nearest double,
    ties to even, as the machine does.
  \<^item> The ratios of \<^verbatim>\<open>calculate_metrics\<close> (precision, recall, F1) are the exception: they
    are kept as exact rationals. Nothing is computed from them but the comparisons with
    0.7 in the report.
  \<^item> A Python \<^verbatim>\<open>str\<close> is the \<open>string\<close> of the bytes of its UTF-8 encoding. What
    Python does with a string of ASCII characters is defined here; what \<^verbatim>\<open>lower\<close>,
    \<^verbatim>\<open>split\<close> and \<^verbatim>\<open>float\<close> do with other characters depends on the Unicode tables
    and is a parameter of the model, as is the text that \<^verbatim>\<open>str()\<close> gives for a value that
    is not a string (record \<open>builtins\<close>).
  \<^item> Exceptions are values: a function that can raise returns \<open>error + 'a\<close>.
\<close>

subsection \<open>Values, errors, configuration\<close>

datatype fl = Fin rat | NegZero | PosInf | NegInf | NaN

datatype pyval =
    PNone
  | PBool bool
  | PInt int
  | PFloat fl
  | PStr string
  | PList "pyval list"
  | PDict "(string \<times> pyval) list"

datatype error = TypeError | AttributeError | ValueError | OverflowError

record config =
  numeric_tolerance :: fl
  fuzzy_strings :: bool
  list_order_matters :: bool

text \<open>
  The builtins whose results are not computed here: \<^verbatim>\<open>str(v)\<close> for a value that is not
  a string, and for a string with a character outside ASCII \<^verbatim>\<open>s.lower()\<close>,
  \<^verbatim>\<open>s.split()\<close> and the text that \<^verbatim>\<open>float(s)\<close> parses (Unicode white space and
  decimal digits replaced by ASCII ones).
\<close>

record builtins =
  str_of :: "pyval \<Rightarrow> string"
  uni_lower :: "string \<Rightarrow> string"
  uni_split :: "string \<Rightarrow> string list"
  uni_float_text :: "string \<Rightarrow> string"

text \<open>
  The dictionaries of counts. Every comparator returns the keys \<^verbatim>\<open>tp\<close>, \<^verbatim>\<open>fp\<close>,
  \<^verbatim>\<open>fn\<close>; \<^verbatim>\<open>compare_boolean\<close> adds the key \<^verbatim>\<open>tn\<close>. In \<open>counts\<close> the field \<open>tn\<close> is
  \<open>None\<close> when the dictionary has no such key.
\<close>

record tally =
  tp :: int
  fp :: int
  fn :: int

record counts = tally +
  tn :: "int option"

record metrics = tally +
  precision :: rat
  recall :: rat
  f1 :: rat

subsection \<open>Doubles\<close>

text \<open>The number of binary digits of a positive integer.\<close>

function bitlen :: "int \<Rightarrow> int" where
  "bitlen n = (if n \<le> 0 then 0 else 1 + bitlen (n div 2))"
  by pat_completeness auto
termination
  by (relation "measure nat") auto

declare bitlen.simps [simp del]

definition pow2 :: "int \<Rightarrow> rat" where
  "pow2 e = (if 0 \<le> e then 2 ^ nat e else 1 / 2 ^ nat (- e))"

text \<open>For \<open>x > 0\<close>, the exponent \<open>k\<close> with \<open>2 ^ k \<le> x < 2 ^ (k + 1)\<close>.\<close>

definition ilog2 :: "rat \<Rightarrow> int" where
  "ilog2 x = (if 1 \<le> x then bitlen \<lfloor>x\<rfloor> - 1 else - bitlen (\<lceil>1 / x\<rceil> - 1))"

text \<open>The nearest integer, the even one of two that are equally near.\<close>

definition round_even :: "rat \<Rightarrow> int" where
  "round_even x =
     (let f = \<lfloor>x\<rfloor>; d = x - of_int f
      in if d < 1 / 2 then f else if 1 / 2 < d then f + 1 else if even f then f else f + 1)"

text \<open>
  For \<open>x > 0\<close>, the nearest multiple of the spacing of the doubles around \<open>x\<close>: 53
  significant bits, and no spacing below \<open>2 ^ - 1074\<close>. The result is 0 on underflow and
  \<open>2 ^ 1024\<close> or more on overflow.
\<close>

definition round_mag :: "rat \<Rightarrow> rat" where
  "round_mag x =
     (let e = max (ilog2 x - 52) (- 1074)
      in of_int (round_even (x / pow2 e)) * pow2 e)"

definition round_double :: "rat \<Rightarrow> fl" where
  "round_double x =
     (if x = 0 then Fin 0
      else
        let m = round_mag \<bar>x\<bar> in
        if pow2 1024 \<le> m then (if x < 0 then NegInf else PosInf)
        else if m = 0 then (if x < 0 then NegZero else Fin 0)
        else Fin (if x < 0 then - m else m))"

text \<open>The value of a finite double; 0 for the others, which the callers set apart.\<close>

fun fin_val :: "fl \<Rightarrow> rat" where
  "fin_val (Fin r) = r"
| "fin_val f = 0"

text \<open>\<^verbatim>\<open>x - y\<close> on floats.\<close>

definition fsub :: "fl \<Rightarrow> fl \<Rightarrow> fl" where
  "fsub x y =
     (if x = NaN \<or> y = NaN then NaN
      else if x = PosInf then (if y = PosInf then NaN else PosInf)
      else if x = NegInf then (if y = NegInf then NaN else NegInf)
      else if y = PosInf then NegInf
      else if y = NegInf then PosInf
      else
        let d = fin_val x - fin_val y in
        if d = 0 then (if x = NegZero \<and> y \<noteq> NegZero then NegZero else Fin 0)
        else round_double d)"

text \<open>\<^verbatim>\<open>abs(x)\<close> on floats.\<close>

fun fabs :: "fl \<Rightarrow> fl" where
  "fabs (Fin r) = Fin \<bar>r\<bar>"
| "fabs NegZero = Fin 0"
| "fabs PosInf = PosInf"
| "fabs NegInf = PosInf"
| "fabs NaN = NaN"

text \<open>
  The order of numbers with the two infinities. \<open>fl_num\<close> places a float in it (both
  zeros are 0) and NaN nowhere: every comparison with NaN is false.
\<close>

datatype xrat = NInfty | Num rat | PInfty

fun xle :: "xrat \<Rightarrow> xrat \<Rightarrow> bool" where
  "xle NInfty y = True"
| "xle (Num a) NInfty = False"
| "xle (Num a) (Num b) = (a \<le> b)"
| "xle (Num a) PInfty = True"
| "xle PInfty y = (y = PInfty)"

fun fl_num :: "fl \<Rightarrow> xrat option" where
  "fl_num (Fin r) = Some (Num r)"
| "fl_num NegZero = Some (Num 0)"
| "fl_num PosInf = Some PInfty"
| "fl_num NegInf = Some NInfty"
| "fl_num NaN = None"

text \<open>\<^verbatim>\<open>x <= y\<close>, \<^verbatim>\<open>x < y\<close> and \<^verbatim>\<open>x == y\<close> on floats.\<close>

definition fle :: "fl \<Rightarrow> fl \<Rightarrow> bool" where
  "fle x y =
     (case fl_num x of
        None \<Rightarrow> False
      | Some a \<Rightarrow> (case fl_num y of None \<Rightarrow> False | Some b \<Rightarrow> xle a b))"

definition flt :: "fl \<Rightarrow> fl \<Rightarrow> bool" where
  "flt x y =
     (case fl_num x of
        None \<Rightarrow> False
      | Some a \<Rightarrow> (case fl_num y of None \<Rightarrow> False | Some b \<Rightarrow> xle a b \<and> a \<noteq> b))"

definition feq :: "fl \<Rightarrow> fl \<Rightarrow> bool" where
  "feq x y =
     (case fl_num x of
        None \<Rightarrow> False
      | Some a \<Rightarrow> (case fl_num y of None \<Rightarrow> False | Some b \<Rightarrow> a = b))"

subsection \<open>Python equality, truth value, hashing\<close>

text \<open>
  The number that a boolean, an integer or a float is (\<^verbatim>\<open>True == 1 == 1.0\<close>). Python
  compares an integer with a float exactly, without converting the integer.
\<close>

fun num_of :: "pyval \<Rightarrow> xrat option" where
  "num_of (PBool b) = Some (Num (if b then 1 else 0))"
| "num_of (PInt i) = Some (Num (of_int i))"
| "num_of (PFloat f) = fl_num f"
| "num_of _ = None"

text \<open>
  The operator \<^verbatim>\<open>==\<close> on JSON values. NaN equals nothing, not even NaN: the values
  compared are distinct objects of the two JSON trees.
\<close>

fun py_eq :: "pyval \<Rightarrow> pyval \<Rightarrow> bool"
  and py_eq_list :: "pyval list \<Rightarrow> pyval list \<Rightarrow> bool"
  and py_eq_items :: "(string \<times> pyval) list \<Rightarrow> (string \<times> pyval) list \<Rightarrow> bool" where
  "py_eq PNone b = (b = PNone)"
| "py_eq (PBool x) b = (num_of b = Some (Num (if x then 1 else 0)))"
| "py_eq (PInt i) b = (num_of b = Some (Num (of_int i)))"
| "py_eq (PFloat f) b = (case fl_num f of None \<Rightarrow> False | Some k \<Rightarrow> num_of b = Some k)"
| "py_eq (PStr s) b = (b = PStr s)"
| "py_eq (PList xs) b = (case b of PList ys \<Rightarrow> py_eq_list xs ys | _ \<Rightarrow> False)"
| "py_eq (PDict d) b =
     (case b of
        PDict e \<Rightarrow> length (remdups (map fst d)) = length (remdups (map fst e)) \<and> py_eq_items d e
      | _ \<Rightarrow> False)"
| "py_eq_list [] ys = (ys = [])"
| "py_eq_list (x # xs) ys =
     (case ys of [] \<Rightarrow> False | y # ys' \<Rightarrow> py_eq x y \<and> py_eq_list xs ys')"
| "py_eq_items [] e = True"
| "py_eq_items ((k, v) # d) e =
     (case map_of e k of None \<Rightarrow> False | Some w \<Rightarrow> py_eq v w \<and> py_eq_items d e)"

text \<open>The truth value of a value, as \<^verbatim>\<open>and\<close>, \<^verbatim>\<open>or\<close> and \<^verbatim>\<open>not\<close> read it.\<close>

fun truthy :: "pyval \<Rightarrow> bool" where
  "truthy PNone = False"
| "truthy (PBool b) = b"
| "truthy (PInt i) = (i \<noteq> 0)"
| "truthy (PFloat f) = (f \<noteq> Fin 0 \<and> f \<noteq> NegZero)"
| "truthy (PStr s) = (s \<noteq> [])"
| "truthy (PList xs) = (xs \<noteq> [])"
| "truthy (PDict d) = (d \<noteq> [])"

text \<open>Lists and dictionaries cannot be members of a Python set.\<close>

fun hashable :: "pyval \<Rightarrow> bool" where
  "hashable (PList xs) = False"
| "hashable (PDict d) = False"
| "hashable _ = True"

text \<open>
  \<^verbatim>\<open>set(xs)\<close>: \<^verbatim>\<open>TypeError\<close> on an unhashable element, otherwise the elements of
  \<open>xs\<close> with one representative for each class of \<^verbatim>\<open>==\<close>. A set is kept as the list of
  its members; only its size and membership are ever read.
\<close>

definition py_mem :: "pyval \<Rightarrow> pyval list \<Rightarrow> bool" where
  "py_mem x S = list_ex (py_eq x) S"

fun py_distinct :: "pyval list \<Rightarrow> pyval list" where
  "py_distinct [] = []"
| "py_distinct (x # xs) = x # filter (\<lambda>y. \<not> py_eq x y) (py_distinct xs)"

definition py_set :: "pyval list \<Rightarrow> error + pyval list" where
  "py_set xs = (if list_all hashable xs then Inr (py_distinct xs) else Inl TypeError)"

definition set_inter :: "pyval list \<Rightarrow> pyval list \<Rightarrow> pyval list" where
  "set_inter A B = filter (\<lambda>x. py_mem x B) A"

definition set_diff :: "pyval list \<Rightarrow> pyval list \<Rightarrow> pyval list" where
  "set_diff A B = filter (\<lambda>x. \<not> py_mem x B) A"

subsection \<open>Strings: \<^verbatim>\<open>lower\<close>, \<^verbatim>\<open>split\<close>, \<^verbatim>\<open>join\<close>, \<^verbatim>\<open>float\<close>\<close>

text \<open>A string of ASCII characters: no byte has its top bit set.\<close>

definition is_ascii :: "string \<Rightarrow> bool" where
  "is_ascii s = list_all (\<lambda>c. \<not> digit7 c) s"

definition lower_char :: "char \<Rightarrow> char" where
  "lower_char c =
     (case map_of (zip ''ABCDEFGHIJKLMNOPQRSTUVWXYZ'' ''abcdefghijklmnopqrstuvwxyz'') c of
        Some d \<Rightarrow> d
      | None \<Rightarrow> c)"

text \<open>\<^verbatim>\<open>s.lower()\<close>\<close>

definition py_lower :: "builtins \<Rightarrow> string \<Rightarrow> string" where
  "py_lower py s = (if is_ascii s then map lower_char s else uni_lower py s)"

text \<open>The ASCII characters that are white space for \<^verbatim>\<open>split\<close>.\<close>

definition is_space :: "char \<Rightarrow> bool" where
  "is_space c =
     (c \<in> set [CHR 0x09, CHR 0x0A, CHR 0x0B, CHR 0x0C, CHR 0x0D,
               CHR 0x1C, CHR 0x1D, CHR 0x1E, CHR 0x1F, CHR 0x20])"

text \<open>The maximal runs of characters that are not white space; \<open>w\<close> is the run being
  read.\<close>

fun split_from :: "string \<Rightarrow> string \<Rightarrow> string list" where
  "split_from w [] = (if w = [] then [] else [w])"
| "split_from w (c # cs) =
     (if is_space c then (if w = [] then split_from [] cs else w # split_from [] cs)
      else split_from (w @ [c]) cs)"

text \<open>\<^verbatim>\<open>s.split()\<close>\<close>

definition py_split :: "builtins \<Rightarrow> string \<Rightarrow> string list" where
  "py_split py s = (if is_ascii s then split_from [] s else uni_split py s)"

text \<open>\<^verbatim>\<open>sep.join(ws)\<close>\<close>

fun py_join :: "string \<Rightarrow> string list \<Rightarrow> string" where
  "py_join sep [] = []"
| "py_join sep [w] = w"
| "py_join sep (w # ws) = w @ sep @ py_join sep ws"

text \<open>The white space that \<^verbatim>\<open>float()\<close> drops around a literal: of the ASCII characters,
  tab to carriage return and the blank (not the four separators that \<^verbatim>\<open>split\<close> also
  takes).\<close>

definition is_float_space :: "char \<Rightarrow> bool" where
  "is_float_space c = (c \<in> set [CHR 0x09, CHR 0x0A, CHR 0x0B, CHR 0x0C, CHR 0x0D, CHR 0x20])"

definition float_strip :: "string \<Rightarrow> string" where
  "float_strip s = rev (dropWhile is_float_space (rev (dropWhile is_float_space s)))"

definition is_digit :: "char \<Rightarrow> bool" where
  "is_digit c = (c \<in> set ''0123456789'')"

definition digit_val :: "char \<Rightarrow> nat" where
  "digit_val c = of_char c - 48"

text \<open>A \<^verbatim>\<open>digitpart\<close> of Python's float grammar: digits, single underscores allowed
  between two digits. Returns the digits read and the rest of the input.\<close>

fun digitpart :: "string \<Rightarrow> string \<times> string" where
  "digitpart [] = ([], [])"
| "digitpart [c] = (if is_digit c then ([c], []) else ([], [c]))"
| "digitpart (c # d # r) =
     (if \<not> is_digit c then ([], c # d # r)
      else if d = CHR ''_'' then
        (case r of
           [] \<Rightarrow> ([c], d # r)
         | e # r' \<Rightarrow>
             if is_digit e then (case digitpart r of (ds, rest) \<Rightarrow> (c # ds, rest))
             else ([c], d # r))
      else (case digitpart (d # r) of (ds, rest) \<Rightarrow> (c # ds, rest)))"

definition digits_val :: "string \<Rightarrow> nat" where
  "digits_val ds = foldl (\<lambda>n c. 10 * n + digit_val c) 0 ds"

definition take_sign :: "string \<Rightarrow> bool \<times> string" where
  "take_sign s =
     (case s of
        c # cs \<Rightarrow> if c = CHR ''-'' then (True, cs) else if c = CHR ''+'' then (False, cs) else (False, s)
      | [] \<Rightarrow> (False, s))"

text \<open>The exponent of a float literal: absent, or \<^verbatim>\<open>e\<close>/\<^verbatim>\<open>E\<close>, a sign and digits up to
  the end of the text.\<close>

definition parse_exponent :: "string \<Rightarrow> int option" where
  "parse_exponent s =
     (case s of
        [] \<Rightarrow> Some 0
      | c # cs \<Rightarrow>
          if c = CHR ''e'' \<or> c = CHR ''E'' then
            (case take_sign cs of
               (neg, r) \<Rightarrow>
                 (case digitpart r of
                    (ds, rest) \<Rightarrow>
                      if ds = [] \<or> rest \<noteq> [] then None
                      else Some (if neg then - int (digits_val ds) else int (digits_val ds))))
          else None)"

definition scale10 :: "rat \<Rightarrow> int \<Rightarrow> rat" where
  "scale10 m e = (if 0 \<le> e then m * 10 ^ nat e else m / 10 ^ nat (- e))"

text \<open>
  The number that an unsigned decimal literal
  \<^verbatim>\<open>(digits [. [digits]] | . digits) [exponent]\<close> denotes, exactly; \<open>None\<close> when the text
  is no such literal.
\<close>

definition parse_decimal :: "string \<Rightarrow> rat option" where
  "parse_decimal r =
     (case digitpart r of
        (ip, r1) \<Rightarrow>
          (case (case r1 of
                   c # r2 \<Rightarrow> if c = CHR ''.'' then digitpart r2 else ([], r1)
                 | [] \<Rightarrow> ([], r1)) of
             (fr, r3) \<Rightarrow>
               if ip = [] \<and> fr = [] then None
               else
                 (case parse_exponent r3 of
                    None \<Rightarrow> None
                  | Some e \<Rightarrow>
                      Some (scale10 (of_nat (digits_val (ip @ fr))) (e - int (length fr))))))"

text \<open>
  \<^verbatim>\<open>float(s)\<close> for a string of ASCII characters: white space around the literal is
  dropped; after an optional sign come \<^verbatim>\<open>inf\<close>, \<^verbatim>\<open>infinity\<close> or \<^verbatim>\<open>nan\<close> in any case of
  letters, or a decimal literal, whose value is rounded to the nearest double (to an
  infinity or a zero beyond the range). \<open>None\<close> is \<^verbatim>\<open>ValueError\<close>.
\<close>

definition parse_ascii :: "string \<Rightarrow> fl option" where
  "parse_ascii s =
     (case take_sign (float_strip s) of
        (neg, r) \<Rightarrow>
          let w = map lower_char r in
          if w = ''inf'' \<or> w = ''infinity'' then Some (if neg then NegInf else PosInf)
          else if w = ''nan'' then Some NaN
          else
            (case parse_decimal r of
               None \<Rightarrow> None
             | Some v \<Rightarrow>
                 Some (if v = 0 then (if neg then NegZero else Fin 0)
                       else round_double (if neg then - v else v))))"

text \<open>\<^verbatim>\<open>float(s)\<close> for any string.\<close>

definition parse_float :: "builtins \<Rightarrow> string \<Rightarrow> fl option" where
  "parse_float py s = parse_ascii (if is_ascii s then s else uni_float_text py s)"

text \<open>
  \<^verbatim>\<open>float(x)\<close> for a value that is not \<^verbatim>\<open>None\<close>. An integer is rounded to the nearest
  double; one that rounds beyond the largest double raises \<^verbatim>\<open>OverflowError\<close>.
\<close>

fun py_float :: "builtins \<Rightarrow> pyval \<Rightarrow> error + fl" where
  "py_float py PNone = Inl TypeError"
| "py_float py (PBool b) = Inr (Fin (if b then 1 else 0))"
| "py_float py (PInt i) =
     (case round_double (of_int i) of
        PosInf \<Rightarrow> Inl OverflowError
      | NegInf \<Rightarrow> Inl OverflowError
      | f \<Rightarrow> Inr f)"
| "py_float py (PFloat f) = Inr f"
| "py_float py (PStr s) = (case parse_float py s of None \<Rightarrow> Inl ValueError | Some f \<Rightarrow> Inr f)"
| "py_float py (PList xs) = Inl TypeError"
| "py_float py (PDict d) = Inl TypeError"

subsection \<open>Scalar comparators\<close>

definition normalize_string :: "builtins \<Rightarrow> pyval \<Rightarrow> bool \<Rightarrow> string" where
  "normalize_string py s fuzzy =
     (case s of
        PStr x \<Rightarrow> if fuzzy then py_join '' '' (py_split py (py_lower py x)) else x
      | _ \<Rightarrow> str_of py s)"

definition compare_boolean :: "pyval \<Rightarrow> pyval \<Rightarrow> counts" where
  "compare_boolean automated truth =
     (if py_eq automated truth then \<lparr>tp = 1, fp = 0, fn = 0, tn = Some 0\<rparr>
      else if truthy automated \<and> \<not> truthy truth then \<lparr>tp = 0, fp = 1, fn = 0, tn = Some 0\<rparr>
      else if \<not> truthy automated \<and> truthy truth then \<lparr>tp = 0, fp = 0, fn = 1, tn = Some 0\<rparr>
      else \<lparr>tp = 0, fp = 0, fn = 0, tn = Some 1\<rparr>)"

text \<open>\<^verbatim>\<open>float(x) if x is not None else None\<close>\<close>

definition float_or_none :: "builtins \<Rightarrow> pyval \<Rightarrow> error + fl option" where
  "float_or_none py x =
     (if x = PNone then Inr None
      else (case py_float py x of Inl e \<Rightarrow> Inl e | Inr r \<Rightarrow> Inr (Some r)))"

text \<open>The test after both conversions: \<^verbatim>\<open>abs(a - t) <= tolerance\<close> when
  \<^verbatim>\<open>tolerance > 0\<close>, else \<^verbatim>\<open>a == t\<close>.\<close>

definition within_tolerance :: "fl \<Rightarrow> fl \<Rightarrow> fl \<Rightarrow> bool" where
  "within_tolerance a t tolerance =
     (if flt (Fin 0) tolerance then fle (fabs (fsub a t)) tolerance else feq a t)"

text \<open>
  Both conversions sit inside the \<^verbatim>\<open>try\<close>. \<^verbatim>\<open>except (ValueError, TypeError)\<close> leads
  to \<^verbatim>\<open>automated == truth\<close>; an \<^verbatim>\<open>OverflowError\<close> is not caught and leaves the function.
\<close>

definition on_error :: "error \<Rightarrow> pyval \<Rightarrow> pyval \<Rightarrow> error + bool" where
  "on_error e automated truth =
     (if e = ValueError \<or> e = TypeError then Inr (py_eq automated truth) else Inl e)"

definition compare_numeric :: "builtins \<Rightarrow> pyval \<Rightarrow> pyval \<Rightarrow> fl \<Rightarrow> error + bool" where
  "compare_numeric py automated truth tolerance =
     (case float_or_none py automated of
        Inl e \<Rightarrow> on_error e automated truth
      | Inr a \<Rightarrow>
          (case float_or_none py truth of
             Inl e \<Rightarrow> on_error e automated truth
           | Inr t \<Rightarrow>
               (case (a, t) of
                  (None, None) \<Rightarrow> Inr True
                | (None, Some y) \<Rightarrow> Inr False
                | (Some x, None) \<Rightarrow> Inr False
                | (Some x, Some y) \<Rightarrow> Inr (within_tolerance x y tolerance))))"

definition compare_string :: "builtins \<Rightarrow> pyval \<Rightarrow> pyval \<Rightarrow> bool \<Rightarrow> bool" where
  "compare_string py automated truth fuzzy =
     (if automated = PNone \<and> truth = PNone then True
      else if automated = PNone \<or> truth = PNone then False
      else normalize_string py automated fuzzy = normalize_string py truth fuzzy)"

subsection \<open>Lists\<close>

text \<open>\<^verbatim>\<open>None\<close> becomes the empty list, a value that is not a list a one-element list.\<close>

definition as_list :: "pyval \<Rightarrow> pyval list" where
  "as_list v = (case v of PNone \<Rightarrow> [] | PList xs \<Rightarrow> xs | _ \<Rightarrow> [v])"

definition compare_list ::
  "builtins \<Rightarrow> pyval \<Rightarrow> pyval \<Rightarrow> bool \<Rightarrow> bool \<Rightarrow> error + counts" where
  "compare_list py automated truth order_matters fuzzy =
     (let a = as_list automated; t = as_list truth in
      if order_matters then
        Inr \<lparr>tp = int (length (filter (\<lambda>(x, y). compare_string py x y fuzzy) (zip a t))),
             fp = max 0 (int (length a) - int (length t)),
             fn = max 0 (int (length t) - int (length a)),
             tn = None\<rparr>
      else
        (case (if fuzzy then py_set (map (\<lambda>x. PStr (normalize_string py x fuzzy)) a)
               else py_set a) of
           Inl e \<Rightarrow> Inl e
         | Inr auto_set \<Rightarrow>
             (case (if fuzzy then py_set (map (\<lambda>x. PStr (normalize_string py x fuzzy)) t)
                    else py_set t) of
                Inl e \<Rightarrow> Inl e
              | Inr truth_set \<Rightarrow>
                  Inr \<lparr>tp = int (length (set_inter auto_set truth_set)),
                       fp = int (length (set_diff auto_set truth_set)),
                       fn = int (length (set_diff truth_set auto_set)),
                       tn = None\<rparr>)))"

subsection \<open>Metrics\<close>

definition calculate_metrics :: "int \<Rightarrow> int \<Rightarrow> int \<Rightarrow> metrics" where
  "calculate_metrics tp' fp' fn' =
     (let p = (if tp' + fp' > 0 then of_int tp' / of_int (tp' + fp') else 0);
          r = (if tp' + fn' > 0 then of_int tp' / of_int (tp' + fn') else 0);
          f = (if p + r > 0 then 2 * p * r / (p + r) else 0)
      in \<lparr>tp = tp', fp = fp', fn = fn', precision = p, recall = r, f1 = f\<rparr>)"

text \<open>
  \<^verbatim>\<open>calculate_metrics(**counts)\<close>: the keys of the dictionary become keyword arguments,
  and a key that is not a parameter of the function is a \<^verbatim>\<open>TypeError\<close>.
\<close>

definition calculate_metrics_kw :: "counts \<Rightarrow> error + metrics" where
  "calculate_metrics_kw c =
     (case tn c of
        None \<Rightarrow> Inr (calculate_metrics (tp c) (fp c) (fn c))
      | Some n \<Rightarrow> Inl TypeError)"

subsection \<open>Fields and nested objects\<close>

definition match_counts :: "bool \<Rightarrow> counts" where
  "match_counts match =
     \<lparr>tp = (if match then 1 else 0), fp = (if match then 0 else 1),
      fn = (if match then 0 else 1), tn = None\<rparr>"

text \<open>\<^verbatim>\<open>d.get(field)\<close>\<close>

definition dict_get :: "(string \<times> pyval) list \<Rightarrow> string \<Rightarrow> pyval" where
  "dict_get d field = (case map_of d field of None \<Rightarrow> PNone | Some v \<Rightarrow> v)"

text \<open>
  \<^verbatim>\<open>set(automated.keys()) | set(truth.keys())\<close>. Python leaves the order in which a set
  is iterated open; the model takes the keys of \<open>automated\<close> first.
\<close>

definition key_union :: "(string \<times> pyval) list \<Rightarrow> (string \<times> pyval) list \<Rightarrow> string list" where
  "key_union a t = remdups (map fst a @ map fst t)"

text \<open>The loop that adds the counts of the fields; the first field that raises ends it.\<close>

fun sum_counts :: "(error + counts) list \<Rightarrow> error + counts" where
  "sum_counts [] = Inr \<lparr>tp = 0, fp = 0, fn = 0, tn = None\<rparr>"
| "sum_counts (r # rs) =
     (case r of
        Inl e \<Rightarrow> Inl e
      | Inr c \<Rightarrow>
          (case sum_counts rs of
             Inl e \<Rightarrow> Inl e
           | Inr acc \<Rightarrow>
               Inr \<lparr>tp = tp c + tp acc, fp = fp c + fp acc, fn = fn c + fn acc, tn = None\<rparr>))"

lemma size_dict_get: "size (dict_get t field) \<le> size_list (size_prod (\<lambda>k. 0) size) t"
proof (induction t)
  case Nil
  show ?case by (simp add: dict_get_def)
next
  case (Cons kv t)
  then show ?case by (cases kv) (auto simp: dict_get_def split: option.splits)
qed

lemma size_dict_get_twice:
  "2 * size (dict_get t field) < Suc (2 * size_list (size_prod (\<lambda>k. 0) size) t)"
  using size_dict_get [of t field] by simp

text \<open>
  \<open>compare_field\<close> dispatches on the type of \<open>truth\<close>, \<^verbatim>\<open>bool\<close> before \<^verbatim>\<open>int\<close>. Its last
  branch in the source (a truth of no JSON type) has no value of \<open>pyval\<close> to reach it.
  \<open>compare_nested\<close> calls \<^verbatim>\<open>.keys()\<close> on both arguments, which only a dictionary has.
\<close>

function compare_field ::
    "builtins \<Rightarrow> pyval \<Rightarrow> pyval \<Rightarrow> string \<Rightarrow> config \<Rightarrow> error + counts"
  and compare_nested ::
    "builtins \<Rightarrow> pyval \<Rightarrow> pyval \<Rightarrow> config \<Rightarrow> error + counts" where
  "compare_field py automated (PBool b) field_name cfg =
     Inr (compare_boolean automated (PBool b))"
| "compare_field py automated (PInt i) field_name cfg =
     (case compare_numeric py automated (PInt i) (numeric_tolerance cfg) of
        Inl e \<Rightarrow> Inl e
      | Inr match \<Rightarrow> Inr (match_counts match))"
| "compare_field py automated (PFloat r) field_name cfg =
     (case compare_numeric py automated (PFloat r) (numeric_tolerance cfg) of
        Inl e \<Rightarrow> Inl e
      | Inr match \<Rightarrow> Inr (match_counts match))"
| "compare_field py automated (PStr s) field_name cfg =
     Inr (match_counts (compare_string py automated (PStr s) (fuzzy_strings cfg)))"
| "compare_field py automated (PList ts) field_name cfg =
     compare_list py automated (PList ts) (list_order_matters cfg) (fuzzy_strings cfg)"
| "compare_field py automated (PDict t) field_name cfg =
     compare_nested py (if truthy automated then automated else PDict []) (PDict t) cfg"
| "compare_field py automated PNone field_name cfg =
     (if automated = PNone \<or> py_eq automated (PStr []) \<or> py_eq automated (PList [])
      then Inr \<lparr>tp = 1, fp = 0, fn = 0, tn = None\<rparr>
      else Inr \<lparr>tp = 0, fp = 1, fn = 0, tn = None\<rparr>)"
| "compare_nested py automated truth cfg =
     (case automated of
        PDict a \<Rightarrow>
          (case truth of
             PDict t \<Rightarrow>
               sum_counts
                 (map (\<lambda>field. compare_field py (dict_get a field) (dict_get t field) field cfg)
                    (key_union a t))
           | _ \<Rightarrow> Inl AttributeError)
      | _ \<Rightarrow> Inl AttributeError)"
  by pat_completeness auto
termination
  by (relation "measure (\<lambda>x. case x of
          Inl (s, a, t, f, c) \<Rightarrow> 2 * size t + 1
        | Inr (s, a, t, c) \<Rightarrow> 2 * size t)")
     (auto simp: size_dict_get_twice)

subsection \<open>One paper\<close>

text \<open>
  An entry of \<^verbatim>\<open>field_metrics\<close>: the metrics of a field, or for the field \<^verbatim>\<open>records\<close>
  the dictionary with \<^verbatim>\<open>count_metrics\<close> and \<^verbatim>\<open>record_details\<close> (index and metrics of
  each pair of records).
\<close>

datatype field_entry =
    Simple metrics
  | Records metrics "(nat \<times> metrics) list"

datatype evaluation =
    NotAnnotated
  | Evaluated "(string \<times> field_entry) list" metrics

definition bind_err :: "error + 'a \<Rightarrow> ('a \<Rightarrow> error + 'b) \<Rightarrow> error + 'b" where
  "bind_err r f = (case r of Inl e \<Rightarrow> Inl e | Inr x \<Rightarrow> f x)"

text \<open>The characters of a string: in UTF-8 each is one byte that is not a continuation
  byte, with the continuation bytes that follow it; \<open>w\<close> is the character being
  read.\<close>

definition is_continuation :: "char \<Rightarrow> bool" where
  "is_continuation c = (digit7 c \<and> \<not> digit6 c)"

fun chars_from :: "string \<Rightarrow> string \<Rightarrow> string list" where
  "chars_from w [] = (if w = [] then [] else [w])"
| "chars_from w (c # cs) =
     (if is_continuation c then chars_from (w @ [c]) cs
      else if w = [] then chars_from [c] cs
      else w # chars_from [c] cs)"

text \<open>What \<^verbatim>\<open>zip\<close> iterates over: the items of a list, the characters of a string, the
  keys of a dictionary; anything else is not iterable.\<close>

definition py_iter :: "pyval \<Rightarrow> error + pyval list" where
  "py_iter v =
     (case v of
        PList xs \<Rightarrow> Inr xs
      | PStr s \<Rightarrow> Inr (map PStr (chars_from [] s))
      | PDict d \<Rightarrow> Inr (map (\<lambda>kv. PStr (fst kv)) d)
      | _ \<Rightarrow> Inl TypeError)"

text \<open>\<^verbatim>\<open>d.get('records', [])\<close>\<close>

definition get_records :: "(string \<times> pyval) list \<Rightarrow> pyval" where
  "get_records d = (case map_of d ''records'' of None \<Rightarrow> PList [] | Some v \<Rightarrow> v)"

text \<open>The loop over \<^verbatim>\<open>enumerate(zip(auto_records, truth_records))\<close>, from index \<open>i\<close>.\<close>

fun record_details ::
  "builtins \<Rightarrow> config \<Rightarrow> nat \<Rightarrow> (pyval \<times> pyval) list \<Rightarrow> error + (nat \<times> metrics) list" where
  "record_details py cfg i [] = Inr []"
| "record_details py cfg i ((auto_rec, truth_rec) # rest) =
     bind_err (compare_nested py auto_rec truth_rec cfg) (\<lambda>rec_comparison.
     bind_err (calculate_metrics_kw rec_comparison) (\<lambda>m.
     bind_err (record_details py cfg (Suc i) rest) (\<lambda>ds.
     Inr ((i, m) # ds))))"

definition evaluate_records ::
  "builtins \<Rightarrow> (string \<times> pyval) list \<Rightarrow> (string \<times> pyval) list \<Rightarrow> config
     \<Rightarrow> error + field_entry" where
  "evaluate_records py automated truth cfg =
     (let auto_records = get_records automated;
          truth_records = get_records truth
      in
        bind_err (compare_list py auto_records truth_records False False) (\<lambda>record_counts.
        bind_err (py_iter auto_records) (\<lambda>ars.
        bind_err (py_iter truth_records) (\<lambda>trs.
        bind_err (record_details py cfg 0 (zip ars trs)) (\<lambda>details.
        bind_err (calculate_metrics_kw record_counts) (\<lambda>count_metrics.
        Inr (Records count_metrics details)))))))"

definition evaluate_field ::
  "builtins \<Rightarrow> (string \<times> pyval) list \<Rightarrow> (string \<times> pyval) list \<Rightarrow> config \<Rightarrow> string
     \<Rightarrow> error + (string \<times> field_entry)" where
  "evaluate_field py automated truth cfg field =
     (if field = ''records'' then
        bind_err (evaluate_records py automated truth cfg) (\<lambda>e. Inr (field, e))
      else
        bind_err (compare_field py (dict_get automated field) (dict_get truth field) field cfg)
          (\<lambda>cnts.
        bind_err (calculate_metrics_kw cnts) (\<lambda>m. Inr (field, Simple m))))"

text \<open>The loop over \<^verbatim>\<open>all_fields\<close> that fills \<^verbatim>\<open>field_metrics\<close>.\<close>

fun evaluate_fields ::
  "builtins \<Rightarrow> (string \<times> pyval) list \<Rightarrow> (string \<times> pyval) list \<Rightarrow> config \<Rightarrow> string list
     \<Rightarrow> error + (string \<times> field_entry) list" where
  "evaluate_fields py automated truth cfg [] = Inr []"
| "evaluate_fields py automated truth cfg (field # rest) =
     bind_err (evaluate_field py automated truth cfg field) (\<lambda>e.
     bind_err (evaluate_fields py automated truth cfg rest) (\<lambda>es.
     Inr (e # es)))"

text \<open>The counts an entry gives to the totals: its own, or those of \<^verbatim>\<open>count_metrics\<close>.\<close>

fun entry_metrics :: "field_entry \<Rightarrow> metrics" where
  "entry_metrics (Simple m) = m"
| "entry_metrics (Records cm ds) = cm"

definition evaluate_paper ::
  "builtins \<Rightarrow> string \<Rightarrow> pyval \<Rightarrow> pyval \<Rightarrow> config \<Rightarrow> error + evaluation" where
  "evaluate_paper py paper_id automated truth cfg =
     (if truth = PNone then Inr NotAnnotated
      else
        (case automated of
           PDict a \<Rightarrow>
             (case truth of
                PDict t \<Rightarrow>
                  bind_err (evaluate_fields py a t cfg (key_union a t)) (\<lambda>field_metrics.
                    let total_tp = (\<Sum>e \<leftarrow> map snd field_metrics. tp (entry_metrics e));
                        total_fp = (\<Sum>e \<leftarrow> map snd field_metrics. fp (entry_metrics e));
                        total_fn = (\<Sum>e \<leftarrow> map snd field_metrics. fn (entry_metrics e))
                    in Inr (Evaluated field_metrics (calculate_metrics total_tp total_fp total_fn)))
              | _ \<Rightarrow> Inl AttributeError)
         | _ \<Rightarrow> Inl AttributeError))"

subsection \<open>The corpus\<close>

record aggregated =
  overall :: metrics
  by_field :: "(string \<times> metrics) list"
  num_papers_evaluated :: nat

text \<open>\<^verbatim>\<open>field_aggregates[field][k] += m[k]\<close> for the three keys; \<^verbatim>\<open>field_aggregates\<close> is
  a \<^verbatim>\<open>defaultdict\<close>, so a new field enters at the end with zero counts first.\<close>

fun add_counts :: "(string \<times> tally) list \<Rightarrow> string \<Rightarrow> metrics \<Rightarrow> (string \<times> tally) list" where
  "add_counts [] field m = [(field, \<lparr>tp = 0 + tp m, fp = 0 + fp m, fn = 0 + fn m\<rparr>)]"
| "add_counts ((k, c) # rest) field m =
     (if k = field then (k, \<lparr>tp = tp c + tp m, fp = fp c + fp m, fn = fn c + fn m\<rparr>) # rest
      else (k, c) # add_counts rest field m)"

definition add_paper :: "(string \<times> tally) list \<Rightarrow> evaluation \<Rightarrow> (string \<times> tally) list" where
  "add_paper aggs paper_eval =
     (case paper_eval of
        NotAnnotated \<Rightarrow> aggs
      | Evaluated field_metrics ov \<Rightarrow>
          foldl (\<lambda>acc (field, e). add_counts acc field (entry_metrics e)) aggs field_metrics)"

definition is_evaluated :: "evaluation \<Rightarrow> bool" where
  "is_evaluated p = (case p of NotAnnotated \<Rightarrow> False | Evaluated fm ov \<Rightarrow> True)"

definition aggregate_metrics :: "(string \<times> evaluation) list \<Rightarrow> aggregated" where
  "aggregate_metrics paper_evaluations =
     (let evaluated_papers = filter is_evaluated (map snd paper_evaluations);
          field_aggregates = foldl add_paper [] evaluated_papers;
          field_metrics = map (\<lambda>(field, c). (field, calculate_metrics (tp c) (fp c) (fn c)))
                            field_aggregates;
          total_tp = (\<Sum>c \<leftarrow> map snd field_aggregates. tp c);
          total_fp = (\<Sum>c \<leftarrow> map snd field_aggregates. fp c);
          total_fn = (\<Sum>c \<leftarrow> map snd field_aggregates. fn c)
      in \<lparr>overall = calculate_metrics total_tp total_fp total_fn,
          by_field = field_metrics,
          num_papers_evaluated = length evaluated_papers\<rparr>)"

text \<open>What one evaluation adds to the totals of the corpus: the sum of the counts of its
  entries, nothing for an item without ground truth.\<close>

definition paper_tally :: "evaluation \<Rightarrow> tally" where
  "paper_tally p =
     (case p of
        NotAnnotated \<Rightarrow> \<lparr>tp = 0, fp = 0, fn = 0\<rparr>
      | Evaluated field_metrics ov \<Rightarrow>
          \<lparr>tp = (\<Sum>e \<leftarrow> map snd field_metrics. tp (entry_metrics e)),
           fp = (\<Sum>e \<leftarrow> map snd field_metrics. fp (entry_metrics e)),
           fn = (\<Sum>e \<leftarrow> map snd field_metrics. fn (entry_metrics e))\<rparr>)"

subsection \<open>The issue lists of the report\<close>

text \<open>
  \<^verbatim>\<open>generate_report\<close> receives the evaluations, the aggregate and a path, and no
  configuration. Of its text only the two lists under COMMON ISSUES are modelled: which
  fields get a line, and in which order (\<^verbatim>\<open>sorted\<close> is stable, as \<open>sort_key\<close> is).
\<close>

definition low_recall :: "(string \<times> metrics) list \<Rightarrow> (string \<times> metrics) list" where
  "low_recall bf = filter (\<lambda>(field, m). recall m < 7 / 10 \<and> fn m > 0) bf"

definition low_precision :: "(string \<times> metrics) list \<Rightarrow> (string \<times> metrics) list" where
  "low_precision bf = filter (\<lambda>(field, m). precision m < 7 / 10 \<and> fp m > 0) bf"

definition low_recall_lines :: "aggregated \<Rightarrow> (string \<times> metrics) list" where
  "low_recall_lines agg = sort_key (\<lambda>x. recall (snd x)) (low_recall (by_field agg))"

definition low_precision_lines :: "aggregated \<Rightarrow> (string \<times> metrics) list" where
  "low_precision_lines agg = sort_key (\<lambda>x. precision (snd x)) (low_precision (by_field agg))"

subsection \<open>Closed instances\<close>

text \<open>The configuration that \<^verbatim>\<open>main\<close> builds when no option is given.\<close>

definition default_config :: config where
  "default_config =
     \<lparr>numeric_tolerance = Fin 0, fuzzy_strings = False, list_order_matters = False\<rparr>"

text \<open>
  The theorems below hold for every \<open>py\<close>. A closed instance needs one. In this one
  \<^verbatim>\<open>str()\<close> is right on \<^verbatim>\<open>None\<close>, the booleans and strings and empty elsewhere, and a
  string with a character outside ASCII is left as it is. The instances below have ASCII
  strings only and never take \<^verbatim>\<open>str()\<close> of a value.
\<close>

definition str_of_atom :: "pyval \<Rightarrow> string" where
  "str_of_atom v =
     (case v of
        PNone \<Rightarrow> ''None''
      | PBool b \<Rightarrow> (if b then ''True'' else ''False'')
      | PStr s \<Rightarrow> s
      | _ \<Rightarrow> [])"

definition ascii_builtins :: builtins where
  "ascii_builtins =
     \<lparr>str_of = str_of_atom, uni_lower = (\<lambda>s. s), uni_split = (\<lambda>s. [s]),
      uni_float_text = (\<lambda>s. s)\<rparr>"

text \<open>The default configuration with \<^verbatim>\<open>--fuzzy-strings\<close>.\<close>

definition fuzzy_config :: config where
  "fuzzy_config = default_config\<lparr>fuzzy_strings := True\<rparr>"

text \<open>Two evaluated items, with overall counts (4, 1, 0) and (2, 0, 1).\<close>

definition item1 :: "string \<times> evaluation" where
  "item1 = (''item1'', Evaluated [(''title'', Simple (calculate_metrics 4 1 0))]
              (calculate_metrics 4 1 0))"

definition item2 :: "string \<times> evaluation" where
  "item2 = (''item2'', Evaluated [(''title'', Simple (calculate_metrics 2 0 1))]
              (calculate_metrics 2 0 1))"

section \<open>Properties\<close>

subsection \<open>Booleans\<close>

text \<open>
  C3 (as amended). When truth and automated are booleans, \<open>compare_field\<close> gives one true
  positive when they are equal, both true or both false; one false positive for
  automated true against truth false; one false negative for automated false against truth
  true. The key \<^verbatim>\<open>tn\<close> is present and 0 in all four results: two false values are an
  exact match and count as a true positive, not as a true negative.
\<close>

theorem compare_boolean_table:
  "compare_field py (PBool True) (PBool True) field_name cfg
     = Inr \<lparr>tp = 1, fp = 0, fn = 0, tn = Some 0\<rparr>
   \<and> compare_field py (PBool True) (PBool False) field_name cfg
     = Inr \<lparr>tp = 0, fp = 1, fn = 0, tn = Some 0\<rparr>
   \<and> compare_field py (PBool False) (PBool True) field_name cfg
     = Inr \<lparr>tp = 0, fp = 0, fn = 1, tn = Some 0\<rparr>
   \<and> compare_field py (PBool False) (PBool False) field_name cfg
     = Inr \<lparr>tp = 1, fp = 0, fn = 0, tn = Some 0\<rparr>"
  by (simp add: compare_boolean_def)

text \<open>
  C3 as stated asks for no true positive when automated and truth are both false. The
  first test of \<^verbatim>\<open>compare_boolean\<close>, \<^verbatim>\<open>automated == truth\<close>, holds there.
\<close>

theorem compare_false_false_counterexample:
  "compare_field ascii_builtins (PBool False) (PBool False) ''flag'' default_config
     = Inr \<lparr>tp = 1, fp = 0, fn = 0, tn = Some 0\<rparr>"
  by (simp add: compare_boolean_def)

subsection \<open>Exceptions\<close>

text \<open>
  The three ways in which a comparison ends in an exception instead of counts.
  First, a truth that is a mapping against any automated value that is truthy and not a
  mapping: a non-empty string or list, a number other than 0, \<^verbatim>\<open>True\<close>.
\<close>

lemma compare_field_truthy_scalar_for_mapping:
  assumes "truthy automated" and "\<And>d. automated \<noteq> PDict d"
  shows "compare_field py automated (PDict t) field_name cfg = Inl AttributeError"
  using assms by (cases automated) auto

text \<open>Second, a \<^verbatim>\<open>records\<close> list on the automated side with a sub-record in it.\<close>

lemma py_set_unhashable: "x \<in> set xs \<Longrightarrow> \<not> hashable x \<Longrightarrow> py_set xs = Inl TypeError"
  by (auto simp: py_set_def list_all_iff)

lemma evaluate_records_unhashable:
  assumes "get_records automated = PList ars" and "PDict d \<in> set ars"
  shows "evaluate_records py automated truth cfg = Inl TypeError"
proof -
  have "py_set ars = Inl TypeError"
    using assms(2) by (rule py_set_unhashable) simp
  then show ?thesis
    using assms(1)
    by (simp add: evaluate_records_def compare_list_def as_list_def bind_err_def)
qed

text \<open>Third, a top-level field, other than \<^verbatim>\<open>records\<close>, whose truth is a boolean. The
  loop over the fields passes on the first exception, so the paper has no evaluation.\<close>

lemma evaluate_fields_raises:
  assumes "field \<in> set fs" and "evaluate_field py a t cfg field = Inl e"
  shows "\<exists>e'. evaluate_fields py a t cfg fs = Inl e'"
  using assms(1)
proof (induction fs)
  case Nil
  then show ?case by simp
next
  case (Cons f fs)
  show ?case
  proof (cases "evaluate_field py a t cfg f")
    case (Inl e1)
    then show ?thesis by (simp add: bind_err_def)
  next
    case (Inr r)
    with Cons assms(2) have "field \<in> set fs" by auto
    with Cons.IH obtain e' where "evaluate_fields py a t cfg fs = Inl e'" by blast
    with Inr show ?thesis by (simp add: bind_err_def)
  qed
qed

lemma evaluate_field_boolean:
  assumes "map_of t field = Some (PBool b)" and "field \<noteq> ''records''"
  shows "evaluate_field py a t cfg field = Inl TypeError"
  using assms
  by (simp add: evaluate_field_def dict_get_def bind_err_def calculate_metrics_kw_def
      compare_boolean_def)

lemma in_key_union: "map_of t field = Some v \<Longrightarrow> field \<in> set (key_union a t)"
  by (auto simp: key_union_def dest!: map_of_SomeD intro: rev_image_eqI)

lemma evaluate_paper_boolean_field:
  assumes "map_of t field = Some (PBool b)" and "field \<noteq> ''records''"
  shows "\<exists>e. evaluate_paper py paper_id (PDict a) (PDict t) cfg = Inl e"
proof -
  obtain e where "evaluate_fields py a t cfg (key_union a t) = Inl e"
    using evaluate_fields_raises [OF in_key_union [OF assms(1)] evaluate_field_boolean [OF assms]]
    by blast
  then show ?thesis
    by (simp add: evaluate_paper_def bind_err_def)
qed

lemma evaluate_paper_records_of_mappings:
  assumes "map_of a ''records'' = Some (PList ars)" and "PDict d \<in> set ars"
  shows "\<exists>e. evaluate_paper py paper_id (PDict a) (PDict t) cfg = Inl e"
proof -
  have "get_records a = PList ars"
    using assms(1) by (simp add: get_records_def)
  then have "evaluate_field py a t cfg ''records'' = Inl TypeError"
    using assms(2) by (simp add: evaluate_field_def evaluate_records_unhashable bind_err_def)
  moreover have "''records'' \<in> set (key_union a t)"
    using assms(1) by (auto simp: key_union_def dest!: map_of_SomeD intro: rev_image_eqI)
  ultimately obtain e where "evaluate_fields py a t cfg (key_union a t) = Inl e"
    using evaluate_fields_raises by blast
  then show ?thesis
    by (simp add: evaluate_paper_def bind_err_def)
qed

text \<open>
  C1. A truth that is a mapping against an automated value that is a non-empty string:
  \<^verbatim>\<open>automated or {}\<close> keeps the string, and \<^verbatim>\<open>compare_nested\<close> asks it for
  \<^verbatim>\<open>.keys()\<close>. The comparison raises \<^verbatim>\<open>AttributeError\<close>; it returns no counts.
\<close>

theorem compare_field_scalar_for_mapping_raises:
  "compare_field py (PStr ''abc'') (PDict [(''a'', PInt 1)]) field_name cfg
     = Inl AttributeError"
  by simp

text \<open>
  C2. An item whose field \<^verbatim>\<open>records\<close> holds one sub-record on each side: the
  count-level comparison builds \<^verbatim>\<open>set(auto_records)\<close>, a dictionary is not hashable, and
  \<^verbatim>\<open>evaluate_paper\<close> raises \<^verbatim>\<open>TypeError\<close> before any metric exists.
\<close>

theorem evaluate_paper_records_raises:
  "evaluate_paper py paper_id
     (PDict [(''records'', PList [PDict [(''a'', PInt 1)]])])
     (PDict [(''records'', PList [PDict [(''a'', PInt 1)]])]) cfg = Inl TypeError"
  by (simp add: evaluate_paper_def key_union_def evaluate_field_def evaluate_records_def
      get_records_def compare_list_def as_list_def py_set_def bind_err_def)

text \<open>
  C4. An item with a top-level boolean field, ground truth present: the counts of
  \<^verbatim>\<open>compare_boolean\<close> carry the key \<^verbatim>\<open>tn\<close>, \<^verbatim>\<open>calculate_metrics(**counts)\<close> has no
  such parameter, and \<^verbatim>\<open>evaluate_paper\<close> raises \<^verbatim>\<open>TypeError\<close>.
\<close>

theorem evaluate_paper_boolean_field_raises:
  "evaluate_paper py paper_id
     (PDict [(''flag'', PBool True)]) (PDict [(''flag'', PBool True)]) cfg = Inl TypeError"
  by (simp add: evaluate_paper_def key_union_def evaluate_field_def dict_get_def
      compare_boolean_def calculate_metrics_kw_def bind_err_def)

subsection \<open>Rounding\<close>

text \<open>
  Rounding to a double never passes a double: if \<open>t\<close> is a double and \<open>x \<le> t\<close>, the
  double nearest to \<open>x\<close> is at most \<open>t\<close>. Hence a difference whose exact size is
  within a tolerance that is a double also passes the test on doubles.
\<close>

lemma pow2_powi: "pow2 e = 2 powi e"
  by (simp add: pow2_def power_int_def power_one_over inverse_eq_divide)

lemma pow2_pos: "0 < pow2 e"
  by (simp add: pow2_powi)

lemma pow2_add: "pow2 (a + b) = pow2 a * pow2 b"
  by (simp add: pow2_powi power_int_add)

lemma pow2_mono: "a \<le> b \<Longrightarrow> pow2 a \<le> pow2 b"
  by (simp add: pow2_powi power_int_increasing)

lemma pow2_strict_mono: "a < b \<Longrightarrow> pow2 a < pow2 b"
  by (simp add: pow2_powi power_int_strict_increasing)

lemma pow2_nat: "0 \<le> k \<Longrightarrow> pow2 k = of_int (2 ^ nat k)"
  by (simp add: pow2_def)

lemma bitlen_bounds: "0 < n \<Longrightarrow> 1 \<le> bitlen n \<and> 2 ^ nat (bitlen n - 1) \<le> n \<and> n < 2 ^ nat (bitlen n)"
proof (induction n rule: bitlen.induct)
  case (1 n)
  show ?case
  proof (cases "n = 1")
    case True
    have "bitlen 1 = 1"
      by (simp add: bitlen.simps)
    with True show ?thesis by simp
  next
    case False
    with "1.prems" have h: "0 < n div 2" and n: "\<not> n \<le> 0"
      by auto
    from "1.IH" [OF n h]
    have ih: "1 \<le> bitlen (n div 2)" "2 ^ nat (bitlen (n div 2) - 1) \<le> n div 2"
      "n div 2 < 2 ^ nat (bitlen (n div 2))"
      by simp_all
    have b: "bitlen n = 1 + bitlen (n div 2)"
      using n by (subst bitlen.simps) simp
    have e1: "nat (bitlen (n div 2)) = Suc (nat (bitlen (n div 2) - 1))"
      using ih(1) by simp
    have e2: "nat (1 + bitlen (n div 2)) = Suc (nat (bitlen (n div 2)))"
      using ih(1) by simp
    have lo: "2 ^ nat (bitlen (n div 2)) \<le> n"
      unfolding e1 using ih(2) by (simp; linarith)
    have hi: "n < 2 ^ nat (1 + bitlen (n div 2))"
      unfolding e2 using ih(3) by (simp; linarith)
    show ?thesis
      unfolding b using ih(1) lo hi by simp
  qed
qed

lemma bitlen_nonneg: "0 \<le> bitlen n"
proof (cases "0 < n")
  case True
  then show ?thesis using bitlen_bounds [of n] by simp
next
  case False
  then show ?thesis by (simp add: bitlen.simps)
qed

lemma ilog2_bounds:
  assumes "0 < x"
  shows "pow2 (ilog2 x) \<le> x \<and> x < pow2 (ilog2 x + 1)"
proof (cases "1 \<le> x")
  case True
  define n where "n = \<lfloor>x\<rfloor>"
  have n: "0 < n" using True by (simp add: n_def)
  from bitlen_bounds [OF n]
  have b: "1 \<le> bitlen n" "2 ^ nat (bitlen n - 1) \<le> n" "n < 2 ^ nat (bitlen n)"
    by simp_all
  have i: "ilog2 x = bitlen n - 1"
    using True by (simp add: ilog2_def n_def)
  have "pow2 (bitlen n - 1) = of_int (2 ^ nat (bitlen n - 1))"
    using b(1) by (simp add: pow2_nat)
  also have "\<dots> \<le> of_int n"
    using b(2) by (simp only: of_int_le_iff)
  also have "\<dots> \<le> x"
    by (simp add: n_def)
  finally have lo: "pow2 (ilog2 x) \<le> x"
    by (simp add: i)
  have "n + 1 \<le> 2 ^ nat (bitlen n)"
    using b(3) by simp
  then have "(of_int (n + 1) :: rat) \<le> of_int (2 ^ nat (bitlen n))"
    by (simp only: of_int_le_iff)
  moreover have "x < of_int (n + 1)"
    using floor_correct [of x] by (simp add: n_def)
  moreover have "pow2 (bitlen n) = of_int (2 ^ nat (bitlen n))"
    using b(1) by (simp add: pow2_nat)
  ultimately have "x < pow2 (ilog2 x + 1)"
    by (simp add: i)
  with lo show ?thesis by simp
next
  case False
  define c where "c = \<lceil>1 / x\<rceil>"
  have y: "1 < 1 / x"
    using False assms by simp
  then have c2: "2 \<le> c"
    unfolding c_def by (simp add: le_ceiling_iff)
  then have n: "0 < c - 1" by simp
  from bitlen_bounds [OF n]
  have b: "1 \<le> bitlen (c - 1)" "2 ^ nat (bitlen (c - 1) - 1) \<le> c - 1"
    "c - 1 < 2 ^ nat (bitlen (c - 1))"
    by simp_all
  have i: "ilog2 x = - bitlen (c - 1)"
    using False by (simp add: ilog2_def c_def)
  have "c \<le> 2 ^ nat (bitlen (c - 1))"
    using b(3) by simp
  then have "(of_int c :: rat) \<le> of_int (2 ^ nat (bitlen (c - 1)))"
    by (simp only: of_int_le_iff)
  then have "(of_int c :: rat) \<le> 2 ^ nat (bitlen (c - 1))"
    by simp
  moreover have "1 / x \<le> of_int c"
    by (simp add: c_def)
  ultimately have "1 / x \<le> 2 ^ nat (bitlen (c - 1))"
    by linarith
  then have "1 / 2 ^ nat (bitlen (c - 1)) \<le> x"
    using assms by (simp add: field_simps)
  moreover have "pow2 (- bitlen (c - 1)) = 1 / 2 ^ nat (bitlen (c - 1))"
    using b(1) by (simp add: pow2_def)
  ultimately have lo: "pow2 (ilog2 x) \<le> x"
    by (simp add: i)
  have "(of_int (2 ^ nat (bitlen (c - 1) - 1)) :: rat) \<le> of_int (c - 1)"
    using b(2) by (simp only: of_int_le_iff)
  then have "(2 :: rat) ^ nat (bitlen (c - 1) - 1) \<le> of_int c - 1"
    by simp
  moreover have "of_int c - 1 < 1 / x"
    unfolding c_def using ceiling_correct [of "1 / x"] by simp
  ultimately have "2 ^ nat (bitlen (c - 1) - 1) < 1 / x"
    by linarith
  then have "x < 1 / 2 ^ nat (bitlen (c - 1) - 1)"
    using assms by (simp add: field_simps)
  moreover have "pow2 (- bitlen (c - 1) + 1) = 1 / 2 ^ nat (bitlen (c - 1) - 1)"
  proof -
    have "- bitlen (c - 1) + 1 \<le> 0" using b(1) by simp
    moreover have "nat (- (- bitlen (c - 1) + 1)) = nat (bitlen (c - 1) - 1)"
      by simp
    ultimately show ?thesis
      using b(1) by (cases "bitlen (c - 1) = 1") (simp_all add: pow2_def)
  qed
  ultimately have "x < pow2 (ilog2 x + 1)"
    by (simp add: i)
  with lo show ?thesis by simp
qed

lemma ilog2_mono:
  assumes "0 < x" and "x \<le> y"
  shows "ilog2 x \<le> ilog2 y"
proof (rule ccontr)
  assume "\<not> ilog2 x \<le> ilog2 y"
  then have "ilog2 y + 1 \<le> ilog2 x" by simp
  then have "pow2 (ilog2 y + 1) \<le> pow2 (ilog2 x)" by (rule pow2_mono)
  also have "\<dots> \<le> x" using ilog2_bounds [OF assms(1)] by simp
  also have "\<dots> \<le> y" by (rule assms(2))
  finally show False
    using ilog2_bounds [of y] assms by simp
qed

lemma round_even_cases: "round_even z = \<lfloor>z\<rfloor> \<or> (round_even z = \<lfloor>z\<rfloor> + 1 \<and> of_int \<lfloor>z\<rfloor> < z)"
  by (auto simp: round_even_def Let_def)

lemma round_even_le:
  assumes "z \<le> of_int N"
  shows "round_even z \<le> N"
proof -
  have f: "\<lfloor>z\<rfloor> \<le> N"
    using assms by (simp add: floor_le_iff)
  from round_even_cases [of z] show ?thesis
  proof
    assume "round_even z = \<lfloor>z\<rfloor>"
    with f show ?thesis by simp
  next
    assume a: "round_even z = \<lfloor>z\<rfloor> + 1 \<and> of_int \<lfloor>z\<rfloor> < z"
    then have "of_int \<lfloor>z\<rfloor> < (of_int N :: rat)"
      using assms by simp
    then have "\<lfloor>z\<rfloor> < N"
      by (simp only: of_int_less_iff)
    with a show ?thesis by simp
  qed
qed

lemma round_even_nonneg: "0 \<le> z \<Longrightarrow> 0 \<le> round_even z"
  using round_even_cases [of z] by auto

lemma round_mag_nonneg: "0 < x \<Longrightarrow> 0 \<le> round_mag x"
  by (simp add: round_mag_def Let_def round_even_nonneg pow2_pos less_imp_le)

lemma round_mag_le:
  assumes "0 < x" and "x \<le> t" and "round_mag t = t"
  shows "round_mag x \<le> t"
proof -
  define ex where "ex = max (ilog2 x - 52) (- 1074)"
  define et where "et = max (ilog2 t - 52) (- 1074)"
  define n where "n = round_even (t / pow2 et)"
  have k: "ex \<le> et"
    using ilog2_mono [OF assms(1,2)] by (simp add: ex_def et_def)
  have t: "t = of_int n * pow2 et"
    using assms(3) by (simp add: round_mag_def Let_def et_def n_def)
  have "pow2 et = pow2 (et - ex) * pow2 ex"
    using pow2_add [of "et - ex" ex] by simp
  also have "pow2 (et - ex) = of_int (2 ^ nat (et - ex))"
    using k by (simp add: pow2_nat)
  finally have "t / pow2 ex = of_int (n * 2 ^ nat (et - ex))"
    using t pow2_pos [of ex] by simp
  moreover have "x / pow2 ex \<le> t / pow2 ex"
    using assms(2) pow2_pos [of ex] by (simp add: divide_right_mono)
  ultimately have "round_even (x / pow2 ex) \<le> n * 2 ^ nat (et - ex)"
    using round_even_le by simp
  then have "(of_int (round_even (x / pow2 ex)) :: rat) \<le> of_int (n * 2 ^ nat (et - ex))"
    by (simp only: of_int_le_iff)
  then have "of_int (round_even (x / pow2 ex)) * pow2 ex \<le> of_int (n * 2 ^ nat (et - ex)) * pow2 ex"
    using pow2_pos [of ex] by (simp add: mult_right_mono)
  also have "\<dots> = t / pow2 ex * pow2 ex"
    using \<open>t / pow2 ex = of_int (n * 2 ^ nat (et - ex))\<close> by simp
  also have "\<dots> = t"
    using pow2_pos [of ex] by simp
  finally show ?thesis
    by (simp add: round_mag_def Let_def ex_def)
qed

lemma round_double_abs_le:
  assumes "round_double t = Fin t" and "0 < t" and "d \<noteq> 0" and "\<bar>d\<bar> \<le> t"
  shows "fle (fabs (round_double d)) (Fin t)"
proof -
  have rt: "round_mag t = t" and small: "t < pow2 1024"
    using assms(1,2) by (auto simp: round_double_def Let_def split: if_splits)
  have "0 < \<bar>d\<bar>" using assms(3) by simp
  from round_mag_le [OF this assms(4) rt] have m: "round_mag \<bar>d\<bar> \<le> t" .
  have p: "0 \<le> round_mag \<bar>d\<bar>"
    using \<open>0 < \<bar>d\<bar>\<close> by (rule round_mag_nonneg)
  show ?thesis
    using m p small assms(2,3)
    by (auto simp: round_double_def Let_def fle_def)
qed

lemma within_tolerance_exact:
  assumes "round_double t = Fin t" and "0 \<le> t"
    and "fl_num x = Some (Num a)" and "fl_num y = Some (Num b)" and "\<bar>a - b\<bar> \<le> t"
  shows "within_tolerance x y (Fin t)"
proof (cases "t = 0")
  case True
  with assms show ?thesis
    by (simp add: within_tolerance_def flt_def feq_def)
next
  case False
  with assms(2) have tp: "0 < t" by simp
  have v: "fin_val x = a" "fin_val y = b" "x \<noteq> NaN" "y \<noteq> NaN" "x \<noteq> PosInf" "x \<noteq> NegInf"
    "y \<noteq> PosInf" "y \<noteq> NegInf"
    using assms(3,4) by (cases x; cases y; simp)+
  show ?thesis
  proof (cases "a - b = 0")
    case True
    then show ?thesis
      using tp v by (simp add: within_tolerance_def flt_def fsub_def fle_def)
  next
    case False
    have "fsub x y = round_double (a - b)"
      using False v by (simp add: fsub_def)
    then show ?thesis
      using round_double_abs_le [OF assms(1) tp False assms(5)] tp
      by (simp add: within_tolerance_def flt_def)
  qed
qed

subsection \<open>Numbers\<close>

text \<open>Rules that let the simplifier compute a rounding, a parse and a comparison on
  numerals.\<close>

lemma floor_rat_numeral_div:
  "\<lfloor>(numeral a :: rat) / numeral b\<rfloor> = numeral a div numeral b"
  by (metis floor_divide_of_int_eq of_int_numeral)

lemma floor_rat_one_div: "\<lfloor>(1 :: rat) / numeral b\<rfloor> = 1 div numeral b"
  by (metis floor_divide_of_int_eq of_int_numeral of_int_1)

lemma ceiling_rat_numeral_div:
  "\<lceil>(numeral a :: rat) / numeral b\<rceil> = - (- numeral a div numeral b)"
  by (metis ceiling_def floor_divide_of_int_eq minus_divide_left of_int_minus of_int_numeral)

lemmas round_eval = round_double_def round_mag_def ilog2_def round_even_def pow2_def
  bitlen.simps Let_def floor_rat_numeral_div floor_rat_one_div ceiling_rat_numeral_div

lemmas parse_eval = parse_float_def parse_ascii_def parse_decimal_def parse_exponent_def
  is_ascii_def float_strip_def is_float_space_def take_sign_def is_digit_def digits_val_def
  digit_val_def scale10_def lower_char_def

lemmas compare_eval = compare_numeric_def float_or_none_def on_error_def within_tolerance_def
  match_counts_def fsub_def fle_def flt_def feq_def default_config_def

lemma float_or_none_ok: "py_float py v = Inr x \<Longrightarrow> float_or_none py v = Inr (Some x)"
  by (cases v) (auto simp: float_or_none_def)

lemma compare_numeric_ok:
  assumes "py_float py automated = Inr x" and "py_float py truth = Inr y"
  shows "compare_numeric py automated truth tolerance = Inr (within_tolerance x y tolerance)"
  using assms by (simp add: compare_numeric_def float_or_none_ok)

lemma within_tolerance_fin:
  "within_tolerance x y (Fin t)
     = (if 0 < t then fle (fabs (fsub x y)) (Fin t) else feq x y)"
  by (auto simp: within_tolerance_def flt_def)

lemma compare_field_numeric:
  assumes "truth = PInt i \<or> truth = PFloat g"
  shows "compare_field py automated truth field_name cfg
           = (case compare_numeric py automated truth (numeric_tolerance cfg) of
                Inl e \<Rightarrow> Inl e
              | Inr match \<Rightarrow> Inr (match_counts match))"
  using assms by auto


text \<open>The double that the literal \<^verbatim>\<open>5.3\<close> denotes; 0.5 is a double.\<close>

lemma double_5_3: "round_double (53 / 10) = Fin (5967269506265907 / 1125899906842624)"
  by (simp add: round_eval)




text \<open>
  Further instances: 6.0 against 5.0 with tolerance 0.5; the doubles of 4.7 and 1.7, whose
  exact distance is above 3 and whose float difference is 3.0; the doubles of 1.1 and 1.0
  with the double of 0.1 as tolerance; an integer against a float; NaN against NaN;
  \<^verbatim>\<open>None\<close> against a number.
\<close>

lemma compare_numeric_examples:
  "compare_field ascii_builtins (PFloat (Fin 6)) (PFloat (Fin 5)) ''n''
     (default_config\<lparr>numeric_tolerance := Fin (1 / 2)\<rparr>)
     = Inr \<lparr>tp = 0, fp = 1, fn = 1, tn = None\<rparr>"
  "round_double (47 / 10) = Fin (5291729562160333 / 1125899906842624)"
  "round_double (17 / 10) = Fin (7656119366529843 / 4503599627370496)"
  "compare_field ascii_builtins (PFloat (Fin (5291729562160333 / 1125899906842624)))
     (PFloat (Fin (7656119366529843 / 4503599627370496))) ''n''
     (default_config\<lparr>numeric_tolerance := Fin 3\<rparr>)
     = Inr \<lparr>tp = 1, fp = 0, fn = 0, tn = None\<rparr>"
  "round_double (11 / 10) = Fin (2476979795053773 / 2251799813685248)"
  "round_double (1 / 10) = Fin (3602879701896397 / 36028797018963968)"
  "compare_field ascii_builtins (PFloat (Fin (2476979795053773 / 2251799813685248)))
     (PFloat (Fin 1)) ''n''
     (default_config\<lparr>numeric_tolerance := Fin (3602879701896397 / 36028797018963968)\<rparr>)
     = Inr \<lparr>tp = 0, fp = 1, fn = 1, tn = None\<rparr>"
  "compare_field ascii_builtins (PInt 3) (PFloat (Fin 3)) ''n'' default_config
     = Inr \<lparr>tp = 1, fp = 0, fn = 0, tn = None\<rparr>"
  "compare_field ascii_builtins (PFloat NaN) (PFloat NaN) ''n'' default_config
     = Inr \<lparr>tp = 0, fp = 1, fn = 1, tn = None\<rparr>"
  "compare_field ascii_builtins PNone (PInt 3) ''n'' default_config
     = Inr \<lparr>tp = 0, fp = 1, fn = 1, tn = None\<rparr>"
  by (simp_all add: compare_eval round_eval)

lemma float_or_none_str:
  "float_or_none py (PStr s)
     = (case parse_float py s of None \<Rightarrow> Inl ValueError | Some f \<Rightarrow> Inr (Some f))"
  by (simp add: float_or_none_def split: option.splits)

lemma compare_numeric_unparsed:
  assumes "parse_float py s = None" and "truth = PInt i \<or> truth = PFloat g"
  shows "compare_numeric py (PStr s) truth tolerance = Inr False"
  using assms by (auto simp: compare_numeric_def float_or_none_str on_error_def split: option.splits)

text \<open>
  C9 (as amended). Let the tolerance be a number \<open>t \<ge> 0\<close>, truth an integer or a float
  and automated a string. \<^verbatim>\<open>float()\<close> reads automated first. If it is no float
  literal, \<^verbatim>\<open>ValueError\<close> is caught, \<^verbatim>\<open>automated == truth\<close> decides, a string never
  equals a number, and the result is one false positive plus one false negative. If it
  reads as the double \<open>x\<close> and \<^verbatim>\<open>float()\<close> turns truth into the double \<open>y\<close>, the test
  of the code on these two doubles decides as for a number; in particular the result is
  a true positive when \<open>t\<close> is a double and the exact distance of the finite doubles
  \<open>x\<close> and \<open>y\<close> is at most \<open>t\<close>.
\<close>

theorem compare_numeric_string:
  assumes "numeric_tolerance cfg = Fin t" and "0 \<le> t"
    and "truth = PInt i \<or> truth = PFloat g"
  shows "(parse_float py s = None \<longrightarrow>
            compare_field py (PStr s) truth field_name cfg
              = Inr \<lparr>tp = 0, fp = 1, fn = 1, tn = None\<rparr>)
       \<and> (parse_float py s = Some x \<and> py_float py truth = Inr y \<longrightarrow>
            compare_field py (PStr s) truth field_name cfg
              = Inr (if (if 0 < t then fle (fabs (fsub x y)) (Fin t) else feq x y)
                     then \<lparr>tp = 1, fp = 0, fn = 0, tn = None\<rparr>
                     else \<lparr>tp = 0, fp = 1, fn = 1, tn = None\<rparr>))
       \<and> (parse_float py s = Some x \<and> py_float py truth = Inr y
            \<and> round_double t = Fin t \<and> fl_num x = Some (Num a) \<and> fl_num y = Some (Num b)
            \<and> \<bar>a - b\<bar> \<le> t \<longrightarrow>
            compare_field py (PStr s) truth field_name cfg
              = Inr \<lparr>tp = 1, fp = 0, fn = 0, tn = None\<rparr>)"
proof -
  have none: "compare_field py (PStr s) truth field_name cfg
              = Inr \<lparr>tp = 0, fp = 1, fn = 1, tn = None\<rparr>"
    if "parse_float py s = None"
    by (simp add: compare_field_numeric [OF assms(3)] compare_numeric_unparsed [OF that assms(3)]
        match_counts_def)
  have some: "compare_field py (PStr s) truth field_name cfg
              = Inr (match_counts (within_tolerance x y (Fin t)))"
    if "parse_float py s = Some x" "py_float py truth = Inr y"
  proof -
    have "py_float py (PStr s) = Inr x" using that(1) by simp
    from compare_numeric_ok [OF this that(2)] show ?thesis
      using assms(1) by (simp add: compare_field_numeric [OF assms(3)])
  qed
  have test: "compare_field py (PStr s) truth field_name cfg
              = Inr (if (if 0 < t then fle (fabs (fsub x y)) (Fin t) else feq x y)
                     then \<lparr>tp = 1, fp = 0, fn = 0, tn = None\<rparr>
                     else \<lparr>tp = 0, fp = 1, fn = 1, tn = None\<rparr>)"
    if "parse_float py s = Some x" "py_float py truth = Inr y"
    unfolding some [OF that] within_tolerance_fin by (simp add: match_counts_def)
  have exact: "compare_field py (PStr s) truth field_name cfg
              = Inr \<lparr>tp = 1, fp = 0, fn = 0, tn = None\<rparr>"
    if "parse_float py s = Some x" "py_float py truth = Inr y" "round_double t = Fin t"
      "fl_num x = Some (Num a)" "fl_num y = Some (Num b)" "\<bar>a - b\<bar> \<le> t"
    unfolding some [OF that(1,2)]
    using within_tolerance_exact [OF that(3) assms(2) that(4,5,6)]
    by (simp add: match_counts_def)
  from none test exact show ?thesis by blast
qed

lemma parse_float_5_0: "parse_float ascii_builtins ''5.0'' = Some (Fin 5)"
  by (simp add: parse_eval round_eval)

lemma parse_float_abc: "parse_float ascii_builtins ''abc'' = None"
  by (simp add: parse_eval)

lemma py_float_5: "py_float ascii_builtins (PInt 5) = Inr (Fin 5)"
  by (simp add: round_eval)

text \<open>The string \<^verbatim>\<open>5.0\<close> against 5 with tolerance 0 matches; \<^verbatim>\<open>abc\<close> does not.\<close>

theorem compare_numeric_string_witness:
  "numeric_tolerance default_config = Fin 0 \<and> (0 :: rat) \<le> 0
   \<and> parse_float ascii_builtins ''abc'' = None
   \<and> compare_field ascii_builtins (PStr ''abc'') (PInt 5) ''n'' default_config
       = Inr \<lparr>tp = 0, fp = 1, fn = 1, tn = None\<rparr>
   \<and> parse_float ascii_builtins ''5.0'' = Some (Fin 5)
   \<and> py_float ascii_builtins (PInt 5) = Inr (Fin 5)
   \<and> compare_field ascii_builtins (PStr ''5.0'') (PInt 5) ''n'' default_config
       = Inr \<lparr>tp = 1, fp = 0, fn = 0, tn = None\<rparr>"
proof -
  have h: "numeric_tolerance default_config = Fin 0" "(0 :: rat) \<le> 0"
    "PInt 5 = PInt 5 \<or> PInt 5 = PFloat NaN"
    by (simp_all add: default_config_def)
  note t1 = compare_numeric_string [OF h, where py = ascii_builtins and s = "''abc''"
      and field_name = "''n''"]
  from t1 [THEN conjunct1, THEN mp, OF parse_float_abc]
  have r1: "compare_field ascii_builtins (PStr ''abc'') (PInt 5) ''n'' default_config
       = Inr \<lparr>tp = 0, fp = 1, fn = 1, tn = None\<rparr>" .
  note t2 = compare_numeric_string [OF h, where py = ascii_builtins and s = "''5.0''"
      and field_name = "''n''" and x = "Fin 5" and y = "Fin 5"]
  have p: "parse_float ascii_builtins ''5.0'' = Some (Fin 5)
      \<and> py_float ascii_builtins (PInt 5) = Inr (Fin 5)"
    using parse_float_5_0 py_float_5 by simp
  from t2 [THEN conjunct2, THEN conjunct1, THEN mp, OF p]
  have r2: "compare_field ascii_builtins (PStr ''5.0'') (PInt 5) ''n'' default_config
       = Inr \<lparr>tp = 1, fp = 0, fn = 0, tn = None\<rparr>"
    by (simp add: feq_def)
  from h(1) h(2) parse_float_abc r1 parse_float_5_0 py_float_5 r2 show ?thesis
    by blast
qed

text \<open>
  C9 as stated promises a true positive when the number parsed is within tolerance of
  truth. The string \<^verbatim>\<open>9007199254740994\<close> parses to \<open>2 ^ 53 + 2\<close>, at distance 1 from
  the truth \<open>2 ^ 53 + 1\<close>, and the tolerance is 1; \<^verbatim>\<open>float(truth)\<close> is \<open>2 ^ 53\<close>, the
  float difference is 2.0, and the code counts a false positive and a false negative.
\<close>

theorem compare_numeric_string_counterexample:
  "compare_field ascii_builtins (PStr ''9007199254740994'') (PInt 9007199254740993) ''n''
     (default_config\<lparr>numeric_tolerance := Fin 1\<rparr>)
     = Inr \<lparr>tp = 0, fp = 1, fn = 1, tn = None\<rparr>"
  by (simp add: compare_eval parse_eval round_eval)

text \<open>What \<^verbatim>\<open>float()\<close> reads: underscores, signs, exponents, the special words; and
  what the comparison makes of it.\<close>

lemma parse_float_examples:
  "parse_float ascii_builtins '' -1_0.5e1 '' = Some (Fin (- 105))"
  "parse_float ascii_builtins ''5E2'' = Some (Fin 500)"
  "parse_float ascii_builtins ''.5'' = Some (Fin (1 / 2))"
  "parse_float ascii_builtins ''5.'' = Some (Fin 5)"
  "parse_float ascii_builtins ''1.1'' = Some (Fin (2476979795053773 / 2251799813685248))"
  "parse_float ascii_builtins ''-0.0'' = Some NegZero"
  "parse_float ascii_builtins ''+Infinity'' = Some PosInf"
  "parse_float ascii_builtins ''-inf'' = Some NegInf"
  "parse_float ascii_builtins ''NaN'' = Some NaN"
  "parse_float ascii_builtins ''1e'' = None"
  "parse_float ascii_builtins ''1__0'' = None"
  "parse_float ascii_builtins ''1 e5'' = None"
  "parse_float ascii_builtins ''5'' = Some (Fin 5)" 
  by (simp_all add: parse_eval round_eval)

lemma compare_string_examples:
  "compare_field ascii_builtins (PStr ''5E2'') (PInt 500) ''n'' default_config
     = Inr \<lparr>tp = 1, fp = 0, fn = 0, tn = None\<rparr>"
  "compare_field ascii_builtins (PStr ''1.1'') (PFloat (Fin 1)) ''n''
     (default_config\<lparr>numeric_tolerance := Fin (3602879701896397 / 36028797018963968)\<rparr>)
     = Inr \<lparr>tp = 0, fp = 1, fn = 1, tn = None\<rparr>"
  "compare_field ascii_builtins (PStr ''inf'') (PInt 5) ''n'' default_config
     = Inr \<lparr>tp = 0, fp = 1, fn = 1, tn = None\<rparr>"
  by (simp_all add: compare_eval parse_eval round_eval)

text \<open>A literal below the smallest double is read as 0.0 and equals the truth 0.\<close>

lemma underflow_example:
  "compare_field ascii_builtins (PStr ''1e-400'') (PInt 0) ''n'' default_config
     = Inr \<lparr>tp = 1, fp = 0, fn = 0, tn = None\<rparr>"
  by (simp add: compare_eval parse_eval round_eval)

text \<open>
  A truth integer beyond the doubles: \<^verbatim>\<open>float(truth)\<close> raises \<^verbatim>\<open>OverflowError\<close>, the
  \<^verbatim>\<open>except\<close> clause names \<^verbatim>\<open>ValueError\<close> and \<^verbatim>\<open>TypeError\<close> only, and the
  comparison ends in the exception. The two theorems above leave this case out.
\<close>

lemma overflow_example:
  "compare_field ascii_builtins (PStr ''5.0'') (PInt (2 ^ 1024)) ''n'' default_config
     = Inl OverflowError"
  by (simp add: compare_eval parse_eval round_eval)

subsection \<open>Unordered lists of strings\<close>

lemma set_py_distinct_strs: "set (py_distinct (map PStr xs)) = PStr ` set xs"
  by (induction xs) auto

lemma distinct_py_distinct_strs: "distinct (py_distinct (map PStr xs))"
  by (induction xs) (auto simp: set_py_distinct_strs)

lemma py_mem_str: "py_mem (PStr x) L = (PStr x \<in> set L)"
  by (auto simp: py_mem_def list_ex_iff)

lemma py_set_strs: "py_set (map PStr xs) = Inr (py_distinct (map PStr xs))"
  by (simp add: py_set_def list_all_iff)

lemma filter_mem_strs:
  "filter (\<lambda>v. py_mem v L) (py_distinct (map PStr xs))
     = filter (\<lambda>v. v \<in> set L) (py_distinct (map PStr xs))"
  by (rule filter_cong) (auto simp: set_py_distinct_strs py_mem_str)

lemma filter_not_mem_strs:
  "filter (\<lambda>v. \<not> py_mem v L) (py_distinct (map PStr xs))
     = filter (\<lambda>v. v \<notin> set L) (py_distinct (map PStr xs))"
  by (rule filter_cong) (auto simp: set_py_distinct_strs py_mem_str)

lemma length_set_inter_strs:
  "length (set_inter (py_distinct (map PStr xs)) (py_distinct (map PStr ys)))
     = card (set xs \<inter> set ys)"
proof -
  have "length (set_inter (py_distinct (map PStr xs)) (py_distinct (map PStr ys)))
          = card ({v. v \<in> PStr ` set ys} \<inter> PStr ` set xs)"
    by (simp add: set_inter_def filter_mem_strs distinct_length_filter
        distinct_py_distinct_strs set_py_distinct_strs)
  also have "{v. v \<in> PStr ` set ys} \<inter> PStr ` set xs = PStr ` (set xs \<inter> set ys)"
    by auto
  also have "card (PStr ` (set xs \<inter> set ys)) = card (set xs \<inter> set ys)"
    by (rule card_image) (simp add: inj_on_def)
  finally show ?thesis .
qed

lemma length_set_diff_strs:
  "length (set_diff (py_distinct (map PStr xs)) (py_distinct (map PStr ys)))
     = card (set xs - set ys)"
proof -
  have "length (set_diff (py_distinct (map PStr xs)) (py_distinct (map PStr ys)))
          = card ({v. v \<notin> PStr ` set ys} \<inter> PStr ` set xs)"
    by (simp add: set_diff_def filter_not_mem_strs distinct_length_filter
        distinct_py_distinct_strs set_py_distinct_strs)
  also have "{v. v \<notin> PStr ` set ys} \<inter> PStr ` set xs = PStr ` (set xs - set ys)"
    by auto
  also have "card (PStr ` (set xs - set ys)) = card (set xs - set ys)"
    by (rule card_image) (simp add: inj_on_def)
  finally show ?thesis .
qed

lemma normalize_string_plain: "normalize_string py (PStr x) False = x"
  by (simp add: normalize_string_def)

lemma compare_list_strs_fuzzy:
  "compare_list py (PList (map PStr as)) (PList (map PStr ts)) False True
     = Inr \<lparr>tp = int (card ((\<lambda>x. normalize_string py (PStr x) True) ` set as
                            \<inter> (\<lambda>x. normalize_string py (PStr x) True) ` set ts)),
            fp = int (card ((\<lambda>x. normalize_string py (PStr x) True) ` set as
                            - (\<lambda>x. normalize_string py (PStr x) True) ` set ts)),
            fn = int (card ((\<lambda>x. normalize_string py (PStr x) True) ` set ts
                            - (\<lambda>x. normalize_string py (PStr x) True) ` set as)),
            tn = None\<rparr>"
proof -
  have m: "map (\<lambda>x. PStr (normalize_string py x True)) (map PStr zs)
             = map PStr (map (\<lambda>x. normalize_string py (PStr x) True) zs)" for zs
    by simp
  show ?thesis
    unfolding compare_list_def as_list_def
    by (simp only: m py_set_strs length_set_inter_strs length_set_diff_strs
        Let_def pyval.case sum.case if_True if_False set_map)
qed

lemma compare_list_strs_plain:
  "compare_list py (PList (map PStr as)) (PList (map PStr ts)) False False
     = Inr \<lparr>tp = int (card (set as \<inter> set ts)), fp = int (card (set as - set ts)),
            fn = int (card (set ts - set as)), tn = None\<rparr>"
  unfolding compare_list_def as_list_def
  by (simp add: py_set_strs length_set_inter_strs length_set_diff_strs)

lemma compare_list_strs:
  "compare_list py (PList (map PStr as)) (PList (map PStr ts)) False fuzzy
     = Inr \<lparr>tp = int (card ((\<lambda>x. normalize_string py (PStr x) fuzzy) ` set as
                            \<inter> (\<lambda>x. normalize_string py (PStr x) fuzzy) ` set ts)),
            fp = int (card ((\<lambda>x. normalize_string py (PStr x) fuzzy) ` set as
                            - (\<lambda>x. normalize_string py (PStr x) fuzzy) ` set ts)),
            fn = int (card ((\<lambda>x. normalize_string py (PStr x) fuzzy) ` set ts
                            - (\<lambda>x. normalize_string py (PStr x) fuzzy) ` set as)),
            tn = None\<rparr>"
proof (cases fuzzy)
  case True
  then show ?thesis by (simp only: compare_list_strs_fuzzy)
next
  case False
  then show ?thesis by (simp add: compare_list_strs_plain normalize_string_plain)
qed

lemma normalize_string_str:
  "normalize_string py (PStr x) fuzzy
     = (if fuzzy then py_join '' '' (py_split py (py_lower py x)) else x)"
  by (simp add: normalize_string_def)

text \<open>
  C7. With \<^verbatim>\<open>list_order_matters\<close> off and two lists of strings, the counts are the sizes
  of the intersection and of the two differences of the sets of normalised elements:
  with \<^verbatim>\<open>fuzzy_strings\<close> on an element is lower-cased, split at white space and joined
  with single blanks, with it off the element is taken as it is. Hence two pairs of lists
  with the same sets of elements, reordered or with repetitions, get the same counts.
\<close>

theorem compare_list_unordered_strings:
  assumes "\<not> list_order_matters cfg"
  shows "(let norm = (\<lambda>x. if fuzzy_strings cfg
                           then py_join '' '' (py_split py (py_lower py x)) else x);
              A = norm ` set as;
              T = norm ` set ts
          in compare_field py (PList (map PStr as)) (PList (map PStr ts)) field_name cfg
               = Inr \<lparr>tp = int (card (A \<inter> T)), fp = int (card (A - T)),
                      fn = int (card (T - A)), tn = None\<rparr>)
       \<and> (set as' = set as \<and> set ts' = set ts \<longrightarrow>
            compare_field py (PList (map PStr as')) (PList (map PStr ts')) field_name cfg
              = compare_field py (PList (map PStr as)) (PList (map PStr ts)) field_name cfg)"
  using assms by (simp add: compare_list_strs normalize_string_str Let_def)

text \<open>
  \<^verbatim>\<open>["a","b"]\<close> against \<^verbatim>\<open>["b","a"]\<close>: two true positives, and a repeated element
  changes nothing. With \<^verbatim>\<open>fuzzy_strings\<close> on, \<^verbatim>\<open>"Apis  Mellifera"\<close> meets
  \<^verbatim>\<open>"apis mellifera"\<close>, while \<^verbatim>\<open>"x"\<close> and \<^verbatim>\<open>"B"\<close> meet nothing.
\<close>

theorem compare_list_unordered_strings_witness:
  "\<not> list_order_matters default_config
   \<and> compare_field ascii_builtins (PList (map PStr [''a'', ''b''])) (PList (map PStr [''b'', ''a'']))
        ''authors'' default_config
       = Inr \<lparr>tp = 2, fp = 0, fn = 0, tn = None\<rparr>
   \<and> set [''b'', ''a'', ''a''] = set [''a'', ''b''] \<and> set [''a'', ''b''] = set [''b'', ''a'']
   \<and> compare_field ascii_builtins (PList (map PStr [''b'', ''a'', ''a''])) (PList (map PStr [''a'', ''b'']))
        ''authors'' default_config
       = Inr \<lparr>tp = 2, fp = 0, fn = 0, tn = None\<rparr>
   \<and> \<not> list_order_matters fuzzy_config
   \<and> compare_field ascii_builtins (PList (map PStr [''Apis  Mellifera'', ''x'']))
        (PList (map PStr [''B'', ''apis mellifera''])) ''species'' fuzzy_config
       = Inr \<lparr>tp = 1, fp = 1, fn = 1, tn = None\<rparr>"
proof -
  have c: "\<not> list_order_matters default_config"
    by (simp add: default_config_def)
  have f: "fuzzy_strings default_config = False"
    by (simp add: default_config_def)
  have s: "set [''b'', ''a'', ''a''] = set [''a'', ''b'']" "set [''a'', ''b''] = set [''b'', ''a'']"
    by auto
  have k: "card ({''a'', ''b''} \<inter> {''b'', ''a''}) = 2" "card ({''a'', ''b''} - {''b'', ''a''}) = 0"
    "card ({''b'', ''a''} - {''a'', ''b''}) = 0"
    by (simp_all add: insert_commute)
  note t = compare_list_unordered_strings [OF c, where py = ascii_builtins
      and as = "[''a'', ''b'']" and ts = "[''b'', ''a'']" and field_name = "''authors''"
      and as' = "[''b'', ''a'', ''a'']" and ts' = "[''a'', ''b'']"]
  have r1: "compare_field ascii_builtins (PList (map PStr [''a'', ''b'']))
        (PList (map PStr [''b'', ''a''])) ''authors'' default_config
       = Inr \<lparr>tp = 2, fp = 0, fn = 0, tn = None\<rparr>"
    using t [THEN conjunct1] k by (simp add: f Let_def)
  have r2: "compare_field ascii_builtins (PList (map PStr [''b'', ''a'', ''a'']))
        (PList (map PStr [''a'', ''b''])) ''authors'' default_config
       = Inr \<lparr>tp = 2, fp = 0, fn = 0, tn = None\<rparr>"
    using t [THEN conjunct2, THEN mp, OF conjI [OF s]] r1 by (simp only:)
  have cf: "\<not> list_order_matters fuzzy_config"
    by (simp add: fuzzy_config_def default_config_def)
  have ff: "fuzzy_strings fuzzy_config = True"
    by (simp add: fuzzy_config_def)
  have n: "py_join '' '' (py_split ascii_builtins (py_lower ascii_builtins ''Apis  Mellifera''))
             = ''apis mellifera''"
    "py_join '' '' (py_split ascii_builtins (py_lower ascii_builtins ''x'')) = ''x''"
    "py_join '' '' (py_split ascii_builtins (py_lower ascii_builtins ''B'')) = ''b''"
    "py_join '' '' (py_split ascii_builtins (py_lower ascii_builtins ''apis mellifera''))
             = ''apis mellifera''"
    by (simp_all add: py_lower_def py_split_def is_ascii_def lower_char_def is_space_def)
  have kf: "card ({''apis mellifera'', ''x''} \<inter> {''b'', ''apis mellifera''}) = 1"
    "card ({''apis mellifera'', ''x''} - {''b'', ''apis mellifera''}) = 1"
    "card ({''b'', ''apis mellifera''} - {''apis mellifera'', ''x''}) = 1"
    by simp_all
  note tf = compare_list_unordered_strings [OF cf, where py = ascii_builtins
      and as = "[''Apis  Mellifera'', ''x'']" and ts = "[''B'', ''apis mellifera'']"
      and field_name = "''species''"]
  have r3: "compare_field ascii_builtins (PList (map PStr [''Apis  Mellifera'', ''x'']))
        (PList (map PStr [''B'', ''apis mellifera''])) ''species'' fuzzy_config
       = Inr \<lparr>tp = 1, fp = 1, fn = 1, tn = None\<rparr>"
    using tf [THEN conjunct1] kf by (simp add: ff n Let_def)
  from c r1 s r2 cf r3 show ?thesis
    by blast
qed

subsection \<open>A scalar or \<^verbatim>\<open>None\<close> against a list\<close>











subsection \<open>Aggregation\<close>

lemma add_counts_sums:
  "(\<Sum>kc \<leftarrow> add_counts aggs field m. tp (snd kc)) = (\<Sum>kc \<leftarrow> aggs. tp (snd kc)) + tp m
   \<and> (\<Sum>kc \<leftarrow> add_counts aggs field m. fp (snd kc)) = (\<Sum>kc \<leftarrow> aggs. fp (snd kc)) + fp m
   \<and> (\<Sum>kc \<leftarrow> add_counts aggs field m. fn (snd kc)) = (\<Sum>kc \<leftarrow> aggs. fn (snd kc)) + fn m"
  by (induction aggs field m rule: add_counts.induct) simp_all

lemma add_entries_sums:
  "(\<Sum>kc \<leftarrow> foldl (\<lambda>acc (field, e). add_counts acc field (entry_metrics e)) aggs fm. tp (snd kc))
     = (\<Sum>kc \<leftarrow> aggs. tp (snd kc)) + (\<Sum>fe \<leftarrow> fm. tp (entry_metrics (snd fe)))
   \<and> (\<Sum>kc \<leftarrow> foldl (\<lambda>acc (field, e). add_counts acc field (entry_metrics e)) aggs fm. fp (snd kc))
     = (\<Sum>kc \<leftarrow> aggs. fp (snd kc)) + (\<Sum>fe \<leftarrow> fm. fp (entry_metrics (snd fe)))
   \<and> (\<Sum>kc \<leftarrow> foldl (\<lambda>acc (field, e). add_counts acc field (entry_metrics e)) aggs fm. fn (snd kc))
     = (\<Sum>kc \<leftarrow> aggs. fn (snd kc)) + (\<Sum>fe \<leftarrow> fm. fn (entry_metrics (snd fe)))"
proof (induction fm arbitrary: aggs)
  case Nil
  show ?case by simp
next
  case (Cons fe fm)
  show ?case
    by (cases fe) (simp add: Cons.IH add_counts_sums)
qed

lemma add_paper_sums:
  "(\<Sum>kc \<leftarrow> add_paper aggs p. tp (snd kc)) = (\<Sum>kc \<leftarrow> aggs. tp (snd kc)) + tp (paper_tally p)
   \<and> (\<Sum>kc \<leftarrow> add_paper aggs p. fp (snd kc)) = (\<Sum>kc \<leftarrow> aggs. fp (snd kc)) + fp (paper_tally p)
   \<and> (\<Sum>kc \<leftarrow> add_paper aggs p. fn (snd kc)) = (\<Sum>kc \<leftarrow> aggs. fn (snd kc)) + fn (paper_tally p)"
proof (cases p)
  case NotAnnotated
  then show ?thesis by (simp add: add_paper_def paper_tally_def)
next
  case (Evaluated fm ov)
  then show ?thesis by (simp add: add_paper_def paper_tally_def add_entries_sums comp_def)
qed

lemma add_papers_sums:
  "(\<Sum>kc \<leftarrow> foldl add_paper aggs ps. tp (snd kc))
     = (\<Sum>kc \<leftarrow> aggs. tp (snd kc)) + (\<Sum>p \<leftarrow> ps. tp (paper_tally p))
   \<and> (\<Sum>kc \<leftarrow> foldl add_paper aggs ps. fp (snd kc))
     = (\<Sum>kc \<leftarrow> aggs. fp (snd kc)) + (\<Sum>p \<leftarrow> ps. fp (paper_tally p))
   \<and> (\<Sum>kc \<leftarrow> foldl add_paper aggs ps. fn (snd kc))
     = (\<Sum>kc \<leftarrow> aggs. fn (snd kc)) + (\<Sum>p \<leftarrow> ps. fn (paper_tally p))"
proof (induction ps arbitrary: aggs)
  case Nil
  show ?case by simp
next
  case (Cons p ps)
  show ?case
    by (simp add: Cons.IH add_paper_sums)
qed

lemma not_evaluated_tally:
  "(\<Sum>p \<leftarrow> filter is_evaluated ps. tp (paper_tally p)) = (\<Sum>p \<leftarrow> ps. tp (paper_tally p))
   \<and> (\<Sum>p \<leftarrow> filter is_evaluated ps. fp (paper_tally p)) = (\<Sum>p \<leftarrow> ps. fp (paper_tally p))
   \<and> (\<Sum>p \<leftarrow> filter is_evaluated ps. fn (paper_tally p)) = (\<Sum>p \<leftarrow> ps. fn (paper_tally p))"
proof (induction ps)
  case Nil
  show ?case by simp
next
  case (Cons p ps)
  then show ?case
    by (cases p) (simp_all add: is_evaluated_def paper_tally_def)
qed

lemma calculate_metrics_counts:
  "tp (calculate_metrics a b c) = a" "fp (calculate_metrics a b c) = b"
  "fn (calculate_metrics a b c) = c"
  by (simp_all add: calculate_metrics_def Let_def)

lemma overall_aggregate:
  "overall (aggregate_metrics E)
     = calculate_metrics (\<Sum>ip \<leftarrow> E. tp (paper_tally (snd ip)))
         (\<Sum>ip \<leftarrow> E. fp (paper_tally (snd ip))) (\<Sum>ip \<leftarrow> E. fn (paper_tally (snd ip)))"
proof -
  have "(\<Sum>p \<leftarrow> filter is_evaluated (map snd E). tp (paper_tally p))
          = (\<Sum>ip \<leftarrow> E. tp (paper_tally (snd ip)))"
       "(\<Sum>p \<leftarrow> filter is_evaluated (map snd E). fp (paper_tally p))
          = (\<Sum>ip \<leftarrow> E. fp (paper_tally (snd ip)))"
       "(\<Sum>p \<leftarrow> filter is_evaluated (map snd E). fn (paper_tally p))
          = (\<Sum>ip \<leftarrow> E. fn (paper_tally (snd ip)))"
    by (simp_all add: not_evaluated_tally comp_def)
  then show ?thesis
    by (simp add: aggregate_metrics_def Let_def add_papers_sums comp_def)
qed

lemma sum_list_mset_cong:
  fixes f :: "'a \<Rightarrow> int"
  assumes "mset xs = mset ys"
  shows "(\<Sum>x \<leftarrow> xs. f x) = (\<Sum>x \<leftarrow> ys. f x)"
proof -
  have "mset (map f xs) = mset (map f ys)"
    using assms by (metis mset_map)
  then show ?thesis
    by (metis sum_mset_sum_list)
qed

lemma num_papers_aggregate:
  "num_papers_evaluated (aggregate_metrics E) = length (filter is_evaluated (map snd E))"
  by (simp add: aggregate_metrics_def Let_def)

text \<open>
  C5. Let \<open>E\<close> hold the items of \<open>A\<close> and of \<open>B\<close>, in any order. The counts of the
  overall metrics of \<open>E\<close> are the sums of those of \<open>A\<close> and of \<open>B\<close>; the overall
  metrics do not depend on the order of the items (they are those of \<open>A\<close> followed by
  \<open>B\<close> and of \<open>B\<close> followed by \<open>A\<close>); and the aggregate of no item has all counts and
  ratios 0, no field and \<^verbatim>\<open>num_papers_evaluated\<close> 0.
\<close>

theorem aggregate_additive:
  assumes "mset E = mset A + mset B"
  shows "tp (overall (aggregate_metrics E))
           = tp (overall (aggregate_metrics A)) + tp (overall (aggregate_metrics B))
       \<and> fp (overall (aggregate_metrics E))
           = fp (overall (aggregate_metrics A)) + fp (overall (aggregate_metrics B))
       \<and> fn (overall (aggregate_metrics E))
           = fn (overall (aggregate_metrics A)) + fn (overall (aggregate_metrics B))
       \<and> overall (aggregate_metrics E) = overall (aggregate_metrics (A @ B))
       \<and> overall (aggregate_metrics E) = overall (aggregate_metrics (B @ A))
       \<and> aggregate_metrics []
           = \<lparr>overall = \<lparr>tp = 0, fp = 0, fn = 0, precision = 0, recall = 0, f1 = 0\<rparr>,
              by_field = [], num_papers_evaluated = 0\<rparr>"
proof -
  have ab: "mset E = mset (A @ B)"
    using assms by simp
  have ba: "mset E = mset (B @ A)"
    using assms by simp
  have e1: "overall (aggregate_metrics E) = overall (aggregate_metrics (A @ B))"
    unfolding overall_aggregate
    by (simp only: sum_list_mset_cong [OF ab])
  have e2: "overall (aggregate_metrics E) = overall (aggregate_metrics (B @ A))"
    unfolding overall_aggregate
    by (simp only: sum_list_mset_cong [OF ba])
  have s: "tp (overall (aggregate_metrics (A @ B)))
           = tp (overall (aggregate_metrics A)) + tp (overall (aggregate_metrics B))"
    "fp (overall (aggregate_metrics (A @ B)))
           = fp (overall (aggregate_metrics A)) + fp (overall (aggregate_metrics B))"
    "fn (overall (aggregate_metrics (A @ B)))
           = fn (overall (aggregate_metrics A)) + fn (overall (aggregate_metrics B))"
    by (simp_all add: overall_aggregate calculate_metrics_counts)
  have z: "aggregate_metrics []
           = \<lparr>overall = \<lparr>tp = 0, fp = 0, fn = 0, precision = 0, recall = 0, f1 = 0\<rparr>,
              by_field = [], num_papers_evaluated = 0\<rparr>"
    by (simp add: aggregate_metrics_def calculate_metrics_def)
  show ?thesis
    using e1 e2 s z by simp
qed

lemma aggregate_item1: "overall (aggregate_metrics [item1]) = calculate_metrics 4 1 0"
  by (simp add: overall_aggregate item1_def paper_tally_def calculate_metrics_counts)

lemma aggregate_item2: "overall (aggregate_metrics [item2]) = calculate_metrics 2 0 1"
  by (simp add: overall_aggregate item2_def paper_tally_def calculate_metrics_counts)

text \<open>The two items of the end-to-end scenario: overall counts (6, 1, 1).\<close>

theorem aggregate_additive_witness:
  "mset [item2, item1] = mset [item1] + mset [item2]
   \<and> tp (overall (aggregate_metrics [item2, item1])) = 6
   \<and> fp (overall (aggregate_metrics [item2, item1])) = 1
   \<and> fn (overall (aggregate_metrics [item2, item1])) = 1"
proof -
  have m: "mset [item2, item1] = mset [item1] + mset [item2]"
    by simp
  note t = aggregate_additive [OF m]
  from t have "tp (overall (aggregate_metrics [item2, item1]))
      = tp (overall (aggregate_metrics [item1])) + tp (overall (aggregate_metrics [item2]))"
    by (rule conjunct1)
  then have "tp (overall (aggregate_metrics [item2, item1])) = 6"
    by (simp add: aggregate_item1 aggregate_item2 calculate_metrics_counts)
  moreover from t have "fp (overall (aggregate_metrics [item2, item1]))
      = fp (overall (aggregate_metrics [item1])) + fp (overall (aggregate_metrics [item2]))"
    by (elim conjE)
  then have "fp (overall (aggregate_metrics [item2, item1])) = 1"
    by (simp add: aggregate_item1 aggregate_item2 calculate_metrics_counts)
  moreover from t have "fn (overall (aggregate_metrics [item2, item1]))
      = fn (overall (aggregate_metrics [item1])) + fn (overall (aggregate_metrics [item2]))"
    by (elim conjE)
  then have "fn (overall (aggregate_metrics [item2, item1])) = 1"
    by (simp add: aggregate_item1 aggregate_item2 calculate_metrics_counts)
  ultimately show ?thesis using m by blast
qed

subsection \<open>The report\<close>

text \<open>
  C8. The low-recall lines are the fields of \<^verbatim>\<open>by_field\<close> with recall below 0.70 and at
  least one false negative, each once, in ascending order of recall; the low-precision
  lines are the fields with precision below 0.70 and at least one false positive, in
  ascending order of precision. Both lists are functions of the aggregate alone: the
  thresholds are literals and no configuration reaches \<^verbatim>\<open>generate_report\<close>.
\<close>

theorem common_issues_lists:
  "mset (low_recall_lines agg)
     = filter_mset (\<lambda>(field, m). recall m < 7 / 10 \<and> 1 \<le> fn m) (mset (by_field agg))
   \<and> sorted (map (\<lambda>x. recall (snd x)) (low_recall_lines agg))
   \<and> mset (low_precision_lines agg)
     = filter_mset (\<lambda>(field, m). precision m < 7 / 10 \<and> 1 \<le> fp m) (mset (by_field agg))
   \<and> sorted (map (\<lambda>x. precision (snd x)) (low_precision_lines agg))"
proof -
  have r: "mset (low_recall_lines agg)
     = filter_mset (\<lambda>(field, m). recall m < 7 / 10 \<and> 1 \<le> fn m) (mset (by_field agg))"
    unfolding low_recall_lines_def low_recall_def mset_sort mset_filter
    by (rule filter_mset_cong) auto
  have p: "mset (low_precision_lines agg)
     = filter_mset (\<lambda>(field, m). precision m < 7 / 10 \<and> 1 \<le> fp m) (mset (by_field agg))"
    unfolding low_precision_lines_def low_precision_def mset_sort mset_filter
    by (rule filter_mset_cong) auto
  have sr: "sorted (map (\<lambda>x. recall (snd x)) (low_recall_lines agg))"
    unfolding low_recall_lines_def by (rule sorted_sort_key)
  have sp: "sorted (map (\<lambda>x. precision (snd x)) (low_precision_lines agg))"
    unfolding low_precision_lines_def by (rule sorted_sort_key)
  from r sr p sp show ?thesis by blast
qed

end
